theory Spec2Isabelle
  imports Main
begin

section \<open>Python values used by the calculator agent\<close>

subsection \<open>Exceptions\<close>

text \<open>
  Every \<^verbatim>\<open>raise\<close> of the source, and every exception of a Python builtin that the
  source calls, is a value of \<open>py_exn\<close>; a computation that may raise has the type
  \<open>py_exn + 'a\<close>, with \<open>Inl\<close> for the exception. The constructors carry the
  exception's message, except \<open>SyntaxError\<close>, which stands for \<^verbatim>\<open>SyntaxError\<close> and
  its subclass \<^verbatim>\<open>IndentationError\<close> with any message (the wording depends on the
  version of the interpreter). \<open>KeyboardInterrupt\<close> and \<open>SystemExit\<close> derive from
  \<^verbatim>\<open>BaseException\<close> only, so \<^verbatim>\<open>except Exception\<close> lets them through; no
  \<open>SyntaxError\<close> is a \<open>ValueError\<close> or a \<open>TypeError\<close>.
\<close>

datatype py_exn =
    ValueError string
  | TypeError string
  | OverflowError string
  | ZeroDivisionError string
  | SyntaxError
  | RuntimeError string
  | AssertionError string
  | KeyboardInterrupt
  | SystemExit

fun is_Exception :: "py_exn \<Rightarrow> bool" where
  "is_Exception KeyboardInterrupt = False"
| "is_Exception SystemExit = False"
| "is_Exception _ = True"

fun is_TypeError_or_ValueError :: "py_exn \<Rightarrow> bool" where
  "is_TypeError_or_ValueError (ValueError _) = True"
| "is_TypeError_or_ValueError (TypeError _) = True"
| "is_TypeError_or_ValueError _ = False"

subsection \<open>Strings\<close>

text \<open>
  A Python \<^verbatim>\<open>str\<close> is modelled as a \<open>string\<close> whose characters are the code points
  0 to 255. On these, \<^verbatim>\<open>str.isspace\<close> (used by \<^verbatim>\<open>str.strip()\<close> and by the
  regular expression class \<^verbatim>\<open>\s\<close>) holds of the code points 9 to 13, 28 to 32, 133
  and 160, and the decimal digits (the class \<^verbatim>\<open>\d\<close>) are \<^verbatim>\<open>0\<close> to \<^verbatim>\<open>9\<close>.
\<close>

definition py_isspace :: "char \<Rightarrow> bool" where
  "py_isspace c =
     (let n = (of_char c :: nat)
      in (9 \<le> n \<and> n \<le> 13) \<or> (28 \<le> n \<and> n \<le> 32) \<or> n = 133 \<or> n = 160)"

definition py_isdigit :: "char \<Rightarrow> bool" where
  "py_isdigit c = (let n = (of_char c :: nat) in 48 \<le> n \<and> n \<le> 57)"

definition strip :: "string \<Rightarrow> string" where
  "strip s = rev (dropWhile py_isspace (rev (dropWhile py_isspace s)))"

subsection \<open>Regular expressions\<close>

text \<open>
  The three patterns of \<^verbatim>\<open>agent.py\<close> use character sets, concatenation, the greedy
  \<^verbatim>\<open>?\<close> and the greedy \<^verbatim>\<open>+\<close>. \<open>rmatch r s\<close> lists the remainders of \<open>s\<close> after
  every way of matching \<open>r\<close> at its beginning, in the order in which the backtracking
  matcher of \<^verbatim>\<open>re\<close> tries them (greedy alternatives first).
\<close>

datatype cset_item = Lit char | Range char char | SpaceClass | DigitClass

datatype regex =
    CSet "cset_item list"
  | Seq regex regex
  | Opt regex
  | Plus regex

fun item_matches :: "cset_item \<Rightarrow> char \<Rightarrow> bool" where
  "item_matches (Lit a) c = (c = a)"
| "item_matches (Range a b) c =
     ((of_char a :: nat) \<le> of_char c \<and> (of_char c :: nat) \<le> of_char b)"
| "item_matches SpaceClass c = py_isspace c"
| "item_matches DigitClass c = py_isdigit c"

definition cset_matches :: "cset_item list \<Rightarrow> char \<Rightarrow> bool" where
  "cset_matches items c = list_ex (\<lambda>i. item_matches i c) items"

function rmatch :: "regex \<Rightarrow> string \<Rightarrow> string list" where
  "rmatch (CSet items) s =
     (case s of [] \<Rightarrow> [] | c # cs \<Rightarrow> if cset_matches items c then [cs] else [])"
| "rmatch (Seq a b) s = concat (map (\<lambda>r. rmatch b r) (rmatch a s))"
| "rmatch (Opt a) s = rmatch a s @ [s]"
| "rmatch (Plus a) s =
     concat (map (\<lambda>r. (if length r < length s then rmatch (Plus a) r else []) @ [r])
                 (rmatch a s))"
  by pat_completeness auto
termination
  by (relation "measures [\<lambda>(r, s). size r, \<lambda>(r, s). length s]") auto

declare rmatch.simps [simp del]

definition re_fullmatch :: "regex \<Rightarrow> string \<Rightarrow> bool" where
  "re_fullmatch r s = list_ex (\<lambda>rest. rest = []) (rmatch r s)"

fun re_search :: "regex \<Rightarrow> string \<Rightarrow> bool" where
  "re_search r [] = (rmatch r [] \<noteq> [])"
| "re_search r (c # cs) = (rmatch r (c # cs) \<noteq> [] \<or> re_search r cs)"

function re_findall :: "regex \<Rightarrow> string \<Rightarrow> string list" where
  "re_findall r s =
     (case rmatch r s of
        [] \<Rightarrow> (case s of [] \<Rightarrow> [] | c # cs \<Rightarrow> re_findall r cs)
      | rest # _ \<Rightarrow>
          if length rest < length s
          then take (length s - length rest) s # re_findall r rest
          else [] # (case s of [] \<Rightarrow> [] | c # cs \<Rightarrow> re_findall r cs))"
  by pat_completeness auto
termination
  by (relation "measure (\<lambda>(r, s). length s)") auto

declare re_findall.simps [simp del]

subsection \<open>Floating-point numbers\<close>

text \<open>
  A Python \<^verbatim>\<open>float\<close> is an IEEE 754 binary64 number. \<open>Finite s m e\<close> is the number
  \<open>(-1)\<^sup>s * m * 2\<^sup>e\<close> with \<open>m < 2\<^sup>5\<^sup>3\<close> and \<open>-1074 \<le> e \<le> 971\<close>, where
  \<open>2\<^sup>5\<^sup>2 \<le> m\<close> unless \<open>e = -1074\<close> (zero and the subnormal numbers); so every number
  has one representation, and the two zeros are \<open>Finite False 0 (-1074)\<close> and
  \<open>Finite True 0 (-1074)\<close>. \<open>round_to_double s n d\<close> is the number nearest to the
  fraction \<open>n / d\<close> (with the sign \<open>s\<close>), ties going to the even significand, as the
  arithmetic of the interpreter, \<^verbatim>\<open>float(int)\<close> and the conversion from text all round.
\<close>

datatype pyfloat = Finite bool int int | Infinity bool | NaN

function bit_length :: "int \<Rightarrow> int" where
  "bit_length n = (if n \<le> 0 then 0 else 1 + bit_length (n div 2))"
  by pat_completeness auto
termination
  by (relation "measure nat") auto

declare bit_length.simps [simp del]

definition round_half_even :: "int \<Rightarrow> int \<Rightarrow> int" where
  "round_half_even num den =
     (let q = num div den; r = num mod den
      in if 2 * r < den then q
         else if den < 2 * r then q + 1
         else if even q then q else q + 1)"

definition round_to_double :: "bool \<Rightarrow> int \<Rightarrow> int \<Rightarrow> pyfloat" where
  "round_to_double s n d =
     (if n = 0 then Finite s 0 (- 1074)
      else
        let k = bit_length n - bit_length d;
            l = (if d * 2 ^ nat k \<le> n * 2 ^ nat (- k) then k else k - 1);
            e = max (l - 52) (- 1074);
            m = round_half_even (n * 2 ^ nat (- e)) (d * 2 ^ nat e)
        in if m = 2 ^ 53
           then (if 971 < e + 1 then Infinity s else Finite s (2 ^ 52) (e + 1))
           else if 971 < e then Infinity s
           else Finite s m e)"

definition float_zero :: "bool \<Rightarrow> pyfloat" where
  "float_zero s = Finite s 0 (- 1074)"

fun float_neg :: "pyfloat \<Rightarrow> pyfloat" where
  "float_neg (Finite s m e) = Finite (\<not> s) m e"
| "float_neg (Infinity s) = Infinity (\<not> s)"
| "float_neg NaN = NaN"

definition signed :: "bool \<Rightarrow> int \<Rightarrow> int" where
  "signed s m = (if s then - m else m)"

fun float_add :: "pyfloat \<Rightarrow> pyfloat \<Rightarrow> pyfloat" where
  "float_add NaN _ = NaN"
| "float_add _ NaN = NaN"
| "float_add (Infinity sa) (Infinity sb) = (if sa = sb then Infinity sa else NaN)"
| "float_add (Infinity sa) (Finite _ _ _) = Infinity sa"
| "float_add (Finite _ _ _) (Infinity sb) = Infinity sb"
| "float_add (Finite sa ma ea) (Finite sb mb eb) =
     (let e = min ea eb;
          t = signed sa ma * 2 ^ nat (ea - e) + signed sb mb * 2 ^ nat (eb - e)
      in if t = 0 then float_zero (sa \<and> sb)
         else round_to_double (t < 0) (\<bar>t\<bar> * 2 ^ nat e) (2 ^ nat (- e)))"

definition float_sub :: "pyfloat \<Rightarrow> pyfloat \<Rightarrow> pyfloat" where
  "float_sub a b = float_add a (float_neg b)"

fun float_mul :: "pyfloat \<Rightarrow> pyfloat \<Rightarrow> pyfloat" where
  "float_mul NaN _ = NaN"
| "float_mul _ NaN = NaN"
| "float_mul (Infinity sa) (Infinity sb) = Infinity (sa \<noteq> sb)"
| "float_mul (Infinity sa) (Finite sb mb _) = (if mb = 0 then NaN else Infinity (sa \<noteq> sb))"
| "float_mul (Finite sa ma _) (Infinity sb) = (if ma = 0 then NaN else Infinity (sa \<noteq> sb))"
| "float_mul (Finite sa ma ea) (Finite sb mb eb) =
     round_to_double (sa \<noteq> sb) (ma * mb * 2 ^ nat (ea + eb)) (2 ^ nat (- (ea + eb)))"

text \<open>Python's \<^verbatim>\<open>x == 0\<close> on a float: true of both zeros, false of everything else.\<close>

fun float_is_zero :: "pyfloat \<Rightarrow> bool" where
  "float_is_zero (Finite _ m _) = (m = 0)"
| "float_is_zero _ = False"

text \<open>Python's \<^verbatim>\<open>/\<close> on two floats raises on a zero divisor and rounds otherwise.\<close>

fun float_quotient :: "pyfloat \<Rightarrow> pyfloat \<Rightarrow> pyfloat" where
  "float_quotient NaN _ = NaN"
| "float_quotient _ NaN = NaN"
| "float_quotient (Infinity _) (Infinity _) = NaN"
| "float_quotient (Infinity sa) (Finite sb _ _) = Infinity (sa \<noteq> sb)"
| "float_quotient (Finite sa _ _) (Infinity sb) = float_zero (sa \<noteq> sb)"
| "float_quotient (Finite sa ma ea) (Finite sb mb eb) =
     round_to_double (sa \<noteq> sb) (ma * 2 ^ nat (ea - eb)) (mb * 2 ^ nat (eb - ea))"

definition float_truediv :: "pyfloat \<Rightarrow> pyfloat \<Rightarrow> py_exn + pyfloat" where
  "float_truediv a b =
     (if float_is_zero b then Inl (ZeroDivisionError ''float division by zero'')
      else Inr (float_quotient a b))"

text \<open>\<^verbatim>\<open>float(i)\<close> of an \<^verbatim>\<open>int\<close> rounds, and raises when the result is out of range.\<close>

definition int_to_float :: "int \<Rightarrow> py_exn + pyfloat" where
  "int_to_float i =
     (case round_to_double (i < 0) \<bar>i\<bar> 1 of
        Infinity _ \<Rightarrow> Inl (OverflowError ''int too large to convert to float'')
      | f \<Rightarrow> Inr f)"

subsection \<open>Converting text to a float\<close>

text \<open>
  \<^verbatim>\<open>float(s)\<close> of a \<^verbatim>\<open>str\<close>: a string with a character beyond ASCII has its
  whitespace replaced by spaces and its other characters from code point 127 on by
  \<^verbatim>\<open>?\<close>; an underscore is accepted between two digits only and dropped; ASCII
  whitespace is stripped from both ends; what is left must be, as a whole, an optional
  sign followed by \<^verbatim>\<open>inf\<close>, \<^verbatim>\<open>infinity\<close> or \<^verbatim>\<open>nan\<close> in any case, or by a decimal
  number with at least one digit, an optional point and an optional exponent. The
  number is rounded to the nearest float; one that is out of range gives an infinity.
\<close>

definition digit_value :: "char \<Rightarrow> int" where
  "digit_value c = int (of_char c) - 48"

definition int_of_digits :: "string \<Rightarrow> int" where
  "int_of_digits ds = foldl (\<lambda>acc c. 10 * acc + digit_value c) 0 ds"

definition is_ascii_space :: "char \<Rightarrow> bool" where
  "is_ascii_space c = (let n = (of_char c :: nat) in (9 \<le> n \<and> n \<le> 13) \<or> n = 32)"

definition ascii_lower :: "char \<Rightarrow> char" where
  "ascii_lower c =
     (let n = (of_char c :: nat) in if 65 \<le> n \<and> n \<le> 90 then char_of (n + 32) else c)"

definition transform_decimal_and_space :: "string \<Rightarrow> string" where
  "transform_decimal_and_space s =
     (if list_all (\<lambda>c. (of_char c :: nat) < 128) s then s
      else map (\<lambda>c. if (of_char c :: nat) < 127 then c
                     else if py_isspace c then CHR '' '' else CHR ''?'') s)"

text \<open>
  \<open>drop_underscores prev s\<close> is \<open>None\<close> when an underscore of \<open>s\<close> does not stand
  between two digits, \<open>prev\<close> being the character before \<open>s\<close>.
\<close>

fun drop_underscores :: "char option \<Rightarrow> string \<Rightarrow> string option" where
  "drop_underscores prev [] = (if prev = Some CHR ''_'' then None else Some [])"
| "drop_underscores prev (c # cs) =
     (if c = CHR ''_''
      then (case prev of
              None \<Rightarrow> None
            | Some p \<Rightarrow> if py_isdigit p then drop_underscores (Some c) cs else None)
      else if prev = Some CHR ''_'' \<and> \<not> py_isdigit c then None
      else map_option ((#) c) (drop_underscores (Some c) cs))"

definition split_sign :: "string \<Rightarrow> bool \<times> string" where
  "split_sign s =
     (case s of
        [] \<Rightarrow> (False, [])
      | c # cs \<Rightarrow> if c = CHR ''-'' then (True, cs)
                  else if c = CHR ''+'' then (False, cs)
                  else (False, s))"

text \<open>
  The decimal number \<open>ip.fp\<close> times ten to the \<open>ex\<close>, rounded: the fraction
  \<open>ip fp * 10\<^sup>e\<^sup>x / 10\<^sup>|\<^sup>f\<^sup>p\<^sup>|\<close>.
\<close>

definition decimal_to_double :: "bool \<Rightarrow> string \<Rightarrow> string \<Rightarrow> int \<Rightarrow> pyfloat" where
  "decimal_to_double neg ip fp ex =
     (let sc = ex - int (length fp)
      in round_to_double neg (int_of_digits (ip @ fp) * 10 ^ nat sc) (10 ^ nat (- sc)))"

text \<open>
  The exponent part: \<open>Some 0\<close> when there is none, \<open>None\<close> when the text after the
  mantissa is not a complete exponent.
\<close>

definition parse_exponent :: "string \<Rightarrow> int option" where
  "parse_exponent s =
     (case s of
        [] \<Rightarrow> Some 0
      | c # cs \<Rightarrow>
          if c = CHR ''e'' \<or> c = CHR ''E''
          then (let (neg, ds) = split_sign cs
                in if ds \<noteq> [] \<and> list_all py_isdigit ds
                   then Some (if neg then - int_of_digits ds else int_of_digits ds)
                   else None)
          else None)"

definition parse_decimal :: "bool \<Rightarrow> string \<Rightarrow> pyfloat option" where
  "parse_decimal neg s =
     (let ip = takeWhile py_isdigit s;
          r1 = dropWhile py_isdigit s;
          has_point = (r1 \<noteq> [] \<and> hd r1 = CHR ''.'');
          fp = (if has_point then takeWhile py_isdigit (tl r1) else []);
          r2 = (if has_point then dropWhile py_isdigit (tl r1) else r1)
      in if ip = [] \<and> fp = [] then None
         else map_option (decimal_to_double neg ip fp) (parse_exponent r2))"

definition string_to_double :: "string \<Rightarrow> pyfloat option" where
  "string_to_double s =
     (let (neg, body) = split_sign s;
          low = map ascii_lower body
      in case parse_decimal neg body of
           Some f \<Rightarrow> Some f
         | None \<Rightarrow>
             if low = ''inf'' \<or> low = ''infinity'' then Some (Infinity neg)
             else if low = ''nan'' then Some NaN
             else None)"

definition float_of_string :: "string \<Rightarrow> py_exn + pyfloat" where
  "float_of_string s =
     (case drop_underscores None (transform_decimal_and_space s) of
        None \<Rightarrow> Inl (ValueError ''could not convert string to float'')
      | Some t \<Rightarrow>
          (case string_to_double
                  (rev (dropWhile is_ascii_space (rev (dropWhile is_ascii_space t)))) of
             None \<Rightarrow> Inl (ValueError ''could not convert string to float'')
           | Some f \<Rightarrow> Inr f))"

text \<open>
  The values a caller may hand to an arithmetic primitive (its parameters are typed
  \<^verbatim>\<open>Any\<close> in \<^verbatim>\<open>_to_float\<close>), and the builtin \<^verbatim>\<open>float(value)\<close> on them.
\<close>

datatype py_value = PyInt int | PyFloat pyfloat | PyStr string | PyBool bool | PyNone

fun py_float :: "py_value \<Rightarrow> py_exn + pyfloat" where
  "py_float (PyInt i) = int_to_float i"
| "py_float (PyFloat f) = Inr f"
| "py_float (PyStr s) = float_of_string s"
| "py_float (PyBool b) = int_to_float (if b then 1 else 0)"
| "py_float PyNone =
     Inl (TypeError ''float() argument must be a string or a real number'')"

subsection \<open>Converting a float to text\<close>

text \<open>
  \<^verbatim>\<open>str(x)\<close> of a float is \<^verbatim>\<open>repr(x)\<close>: the shortest decimal digit string that
  rounds back to \<open>x\<close> (the nearest to \<open>x\<close> among the shortest, the even one on a
  tie), written with a point and at least one digit after it when the decimal point
  position \<open>decpt\<close> satisfies \<open>-4 < decpt \<le> 16\<close>, and with an exponent of at
  least two digits otherwise.
\<close>

definition digit_char :: "int \<Rightarrow> char" where
  "digit_char d = char_of (nat (48 + d))"

function digits_of_int :: "int \<Rightarrow> string" where
  "digits_of_int n =
     (if n < 10 then [digit_char n] else digits_of_int (n div 10) @ [digit_char (n mod 10)])"
  by pat_completeness auto
termination
  by (relation "measure nat") auto

declare digits_of_int.simps [simp del]

text \<open>The integer \<open>p\<close> with \<open>10\<^sup>p \<le> n / d < 10\<^sup>p\<^sup>+\<^sup>1\<close>, for positive \<open>n\<close> and \<open>d\<close>.\<close>

definition decimal_exponent :: "int \<Rightarrow> int \<Rightarrow> int" where
  "decimal_exponent n d =
     (if d \<le> n then int (length (digits_of_int (n div d))) - 1
      else - int (length (digits_of_int ((d - 1) div n))))"

definition roundtrips :: "int \<Rightarrow> int \<Rightarrow> int \<Rightarrow> int \<Rightarrow> bool" where
  "roundtrips m e c sc =
     (round_to_double False (c * 10 ^ nat sc) (10 ^ nat (- sc)) = Finite False m e)"

text \<open>
  \<open>shortest_decimal m e p k\<close> looks for a decimal \<open>c * 10\<^sup>s\<^sup>c\<close> of \<open>k\<close> digits, then
  of \<open>k + 1\<close> digits and so on, that rounds to \<open>m * 2\<^sup>e\<close>, whose decimal exponent is
  \<open>p\<close>. Seventeen digits always do.
\<close>

function shortest_decimal :: "int \<Rightarrow> int \<Rightarrow> int \<Rightarrow> nat \<Rightarrow> int \<times> int" where
  "shortest_decimal m e p k =
     (let sc = p - int k + 1;
          xn = m * 2 ^ nat e * 10 ^ nat (- sc);
          xd = 2 ^ nat (- e) * 10 ^ nat sc;
          lo = xn div xd;
          r = xn mod xd;
          pick =
            (if r = 0 then Some lo
             else if roundtrips m e lo sc
             then (if roundtrips m e (lo + 1) sc
                   then Some (if 2 * r < xd then lo
                              else if xd < 2 * r then lo + 1
                              else if even lo then lo else lo + 1)
                   else Some lo)
             else if roundtrips m e (lo + 1) sc then Some (lo + 1)
             else None)
      in case pick of
           Some c \<Rightarrow> (c, sc)
         | None \<Rightarrow> if k < 17 then shortest_decimal m e p (Suc k) else (lo, sc))"
  by pat_completeness auto
termination
  by (relation "measure (\<lambda>(m, e, p, k). 17 - k)") auto

declare shortest_decimal.simps [simp del]

definition strip_trailing_zeros :: "string \<Rightarrow> string" where
  "strip_trailing_zeros ds = rev (dropWhile (\<lambda>c. c = CHR ''0'') (rev ds))"

definition format_exponent :: "int \<Rightarrow> string" where
  "format_exponent x =
     (let ds = digits_of_int \<bar>x\<bar>
      in (if x < 0 then ''e-'' else ''e+'') @ (if length ds < 2 then CHR ''0'' # ds else ds))"

definition format_digits :: "string \<Rightarrow> int \<Rightarrow> string" where
  "format_digits ds decpt =
     (if decpt \<le> - 4 \<or> 16 < decpt
      then hd ds # (if tl ds = [] then [] else CHR ''.'' # tl ds) @ format_exponent (decpt - 1)
      else if decpt \<le> 0 then ''0.'' @ replicate (nat (- decpt)) CHR ''0'' @ ds
      else if int (length ds) \<le> decpt
      then ds @ replicate (nat decpt - length ds) CHR ''0'' @ ''.0''
      else take (nat decpt) ds @ CHR ''.'' # drop (nat decpt) ds)"

fun float_repr :: "pyfloat \<Rightarrow> string" where
  "float_repr NaN = ''nan''"
| "float_repr (Infinity s) = (if s then ''-inf'' else ''inf'')"
| "float_repr (Finite s m e) =
     (if s then ''-'' else []) @
     (if m = 0 then ''0.0''
      else
        let p = decimal_exponent (m * 2 ^ nat e) (2 ^ nat (- e));
            (c, sc) = shortest_decimal m e p 1;
            all_digits = digits_of_int c;
            ds = strip_trailing_zeros all_digits
        in format_digits ds (int (length all_digits) + sc))"

section \<open>The parser of the interpreter\<close>

text \<open>
  \<^verbatim>\<open>ast.parse(expression, mode="eval")\<close> belongs to the Python standard library. The
  agent calls it only with strings that pass the gate, so the model covers the
  alphabet of the gate: digits, whitespace, \<^verbatim>\<open>+ - * / ( ) .\<close>; any other character is
  rejected here, which is what the interpreter does with the whitespace characters
  other than space, tab, form feed, line feed and carriage return, but not with
  letters. The model follows the tokenizer and the grammar of CPython 3.11, with the two
  limits that this version builds in: at most 200 parentheses open at a time, and at
  most 4300 digits in an integer literal. The depth of recursion that the interpreter
  allows is a setting of the process that runs the agent, not a property of the text,
  and is not modelled: an expression nested some thousand operators deep raises
  \<^verbatim>\<open>RecursionError\<close> there and has a tree here.
\<close>

subsection \<open>Syntax trees\<close>

datatype constant_value =
    IntConst int
  | FloatConst pyfloat
  | BoolConst bool
  | StrConst string
  | NoneConst
  | EllipsisConst

datatype unaryop = Invert | Not | UAdd | USub

datatype operator =
    Add | Sub | Mult | MatMult | Div | Mod | Pow
  | LShift | RShift | BitOr | BitXor | BitAnd | FloorDiv

text \<open>
  \<open>Call f args kws\<close> has the positional arguments \<open>args\<close> and the values \<open>kws\<close> of
  its keyword arguments; \<open>Expression\<close> is the root that \<^verbatim>\<open>mode="eval"\<close> returns.
\<close>

datatype node =
    Expression node
  | Constant constant_value
  | UnaryOp unaryop node
  | BinOp node operator node
  | Tuple "node list"
  | Call node "node list" "node list"
  | Starred node
  | Name string

subsection \<open>The tokenizer\<close>

text \<open>
  A \<open>NUMBER\<close> token carries the value of its literal: over the alphabet of the gate a
  number is a decimal integer or a float without exponent.
\<close>

datatype number_literal = IntNumber int | FloatNumber pyfloat

fun constant_of :: "number_literal \<Rightarrow> constant_value" where
  "constant_of (IntNumber i) = IntConst i"
| "constant_of (FloatNumber f) = FloatConst f"

datatype token =
    NUMBER number_literal
  | PLUS | MINUS | STAR | SLASH | DOUBLESTAR | DOUBLESLASH
  | LPAR | RPAR | DOT | ELLIPSIS
  | NEWLINE | ENDMARKER

text \<open>A carriage return, with the line feed after it if there is one, is a line feed.\<close>

fun translate_newlines :: "string \<Rightarrow> string" where
  "translate_newlines [] = []"
| "translate_newlines [c] = (if c = CHR 0x0D then [CHR 0x0A] else [c])"
| "translate_newlines (c # d # cs) =
     (if c = CHR 0x0D
      then (if d = CHR 0x0A then CHR 0x0A # translate_newlines cs
            else CHR 0x0A # translate_newlines (d # cs))
      else c # translate_newlines (d # cs))"

definition is_blank :: "char \<Rightarrow> bool" where
  "is_blank c = (c = CHR '' '' \<or> c = CHR 0x09 \<or> c = CHR 0x0C)"

text \<open>The column after the blanks at the beginning of a line: a form feed resets it.\<close>

fun indent_column :: "nat \<Rightarrow> string \<Rightarrow> nat" where
  "indent_column col [] = col"
| "indent_column col (c # cs) =
     (if c = CHR '' '' then indent_column (col + 1) cs
      else if c = CHR 0x09 then indent_column ((col div 8 + 1) * 8) cs
      else if c = CHR 0x0C then indent_column 0 cs
      else col)"

text \<open>
  A number that begins with a digit: an integer literal (without superfluous leading
  zeros, unless it is zero, and of at most \<open>MAX_STR_DIGITS\<close> digits, unless it is
  zero), or a float literal when a point follows the digits.
\<close>

definition MAX_STR_DIGITS :: nat where
  "MAX_STR_DIGITS = 4300"

definition number_token :: "string \<Rightarrow> string \<Rightarrow> token option" where
  "number_token ip after =
     (if after \<noteq> [] \<and> hd after = CHR ''.''
      then Some (NUMBER (FloatNumber
             (decimal_to_double False ip (takeWhile py_isdigit (tl after)) 0)))
      else if hd ip = CHR ''0'' \<and> list_ex (\<lambda>c. c \<noteq> CHR ''0'') ip then None
      else if hd ip \<noteq> CHR ''0'' \<and> MAX_STR_DIGITS < length ip then None
      else Some (NUMBER (IntNumber (int_of_digits ip))))"

definition after_number :: "string \<Rightarrow> string" where
  "after_number after =
     (if after \<noteq> [] \<and> hd after = CHR ''.'' then dropWhile py_isdigit (tl after) else after)"

lemma length_after_number [termination_simp]: "length (after_number s) \<le> length s"
proof (cases "s \<noteq> [] \<and> hd s = CHR ''.''")
  case True
  have "length (dropWhile py_isdigit (tl s)) \<le> length (tl s)"
    by (rule length_dropWhile_le)
  with True show ?thesis by (simp add: after_number_def)
next
  case False
  then show ?thesis by (auto simp: after_number_def)
qed

text \<open>
  \<open>tokens atbol level s\<close>: the tokens of \<open>s\<close>, at the beginning of a line when
  \<open>atbol\<close> holds, inside \<open>level\<close> open parentheses. \<open>None\<close> is a syntax error:
  an indented line outside parentheses, a closing parenthesis that matches none, an
  opening parenthesis inside \<open>MAXLEVEL\<close> open ones, an integer literal with leading
  zeros or too many digits, a character that starts no token. The line feed that ends
  a line gives \<open>NEWLINE\<close> outside parentheses and nothing inside; a line of blanks
  gives nothing.
\<close>

definition MAXLEVEL :: nat where
  "MAXLEVEL = 200"

function tokens :: "bool \<Rightarrow> nat \<Rightarrow> string \<Rightarrow> token list option" where
  "tokens atbol level s =
     (if atbol then
        (let col = indent_column 0 s; rest = dropWhile is_blank s
         in case rest of
              [] \<Rightarrow> if level = 0 \<and> 0 < col then None else Some [ENDMARKER]
            | c # cs \<Rightarrow>
                if c = CHR 0x0A then tokens True level cs
                else if level = 0 \<and> 0 < col then None
                else tokens False level rest)
      else
        (case s of
           [] \<Rightarrow> Some [ENDMARKER]
         | c # cs \<Rightarrow>
             if is_blank c then tokens False level cs
             else if c = CHR 0x0A
             then (if 0 < level then tokens True level cs
                   else map_option ((#) NEWLINE) (tokens True level cs))
             else if py_isdigit c
             then (let ip = c # takeWhile py_isdigit cs; after = dropWhile py_isdigit cs
                   in case number_token ip after of
                        None \<Rightarrow> None
                      | Some t \<Rightarrow> map_option ((#) t) (tokens False level (after_number after)))
             else if c = CHR ''.''
             then (if cs \<noteq> [] \<and> py_isdigit (hd cs)
                   then map_option
                          ((#) (NUMBER (FloatNumber
                                  (decimal_to_double False [] (takeWhile py_isdigit cs) 0))))
                          (tokens False level (dropWhile py_isdigit cs))
                   else if take 2 cs = ''..''
                   then map_option ((#) ELLIPSIS) (tokens False level (drop 2 cs))
                   else map_option ((#) DOT) (tokens False level cs))
             else if c = CHR ''+'' then map_option ((#) PLUS) (tokens False level cs)
             else if c = CHR ''-'' then map_option ((#) MINUS) (tokens False level cs)
             else if c = CHR ''*''
             then (if cs \<noteq> [] \<and> hd cs = CHR ''*''
                   then map_option ((#) DOUBLESTAR) (tokens False level (tl cs))
                   else map_option ((#) STAR) (tokens False level cs))
             else if c = CHR ''/''
             then (if cs \<noteq> [] \<and> hd cs = CHR ''/''
                   then map_option ((#) DOUBLESLASH) (tokens False level (tl cs))
                   else map_option ((#) SLASH) (tokens False level cs))
             else if c = CHR ''(''
             then (if MAXLEVEL \<le> level then None
                   else map_option ((#) LPAR) (tokens False (Suc level) cs))
             else if c = CHR '')''
             then (if level = 0 then None
                   else map_option ((#) RPAR) (tokens False (level - 1) cs))
             else None))"
  by pat_completeness auto
termination
proof (relation "measure (\<lambda>(atbol, level, s). 2 * length s + (if atbol then 1 else 0))",
       goal_cases)
  case 1
  show ?case by simp
next
  case (2 atbol level s col rest c cs)
  have "length (dropWhile is_blank s) \<le> length s" by (rule length_dropWhile_le)
  moreover have "length (dropWhile is_blank s) = Suc (length cs)"
    using 2 by (metis length_Cons)
  ultimately show ?case using 2 by simp
next
  case (3 atbol level s col rest c cs)
  have "length (dropWhile is_blank s) \<le> length s" by (rule length_dropWhile_le)
  with 3 show ?case by simp
next
  case (7 atbol level s c cs ip after t)
  have "length (after_number after) \<le> length after" by (rule length_after_number)
  moreover have "length after \<le> length cs" using 7 by (simp add: length_dropWhile_le)
  ultimately show ?case using 7 by auto
next
  case (8 atbol level s c cs)
  have "length (dropWhile py_isdigit cs) \<le> length cs" by (rule length_dropWhile_le)
  with 8 show ?case by auto
qed auto

declare tokens.simps [simp del]

definition py_tokenize :: "string \<Rightarrow> token list option" where
  "py_tokenize s = tokens True 0 (translate_newlines s)"

subsection \<open>The grammar\<close>

text \<open>
  The rules of the grammar of expressions that can apply to these tokens:
  \<^verbatim>\<open>
  eval:    expression NEWLINE* ENDMARKER
  sum:     sum ('+' | '-') term | term
  term:    term ('*' | '/' | '//') factor | factor
  factor:  ('+' | '-') factor | power
  power:   primary '**' factor | primary
  primary: primary '(' [argument] ')' | atom
  atom:    NUMBER | '...' | '(' ')' | '(' expression ')'
  \<close>
  where an \<^verbatim>\<open>expression\<close> is a \<^verbatim>\<open>sum\<close> and an \<^verbatim>\<open>argument\<close> is an expression,
  \<^verbatim>\<open>'*'\<close> and an expression, or \<^verbatim>\<open>'**'\<close> and an expression (every other rule
  needs a name, a keyword, a comma or another operator). \<open>parse rule ts\<close> returns
  the tree of the longest beginning of \<open>ts\<close> that the rule derives and the tokens
  after it, or \<open>None\<close> for a syntax error. The left-recursive rules are loops:
  \<open>SumRest\<close>, \<open>TermRest\<close> and \<open>Trailers\<close> carry the tree built so far, and
  \<open>Argument f\<close> parses what follows the opening parenthesis of a call of \<open>f\<close>. The
  tests on lengths always succeed: a rule never returns more tokens than it was given.
\<close>

datatype rule =
    Sum | SumRest node | Term | TermRest node | Factor | Power
  | Primary | Trailers node | Argument node | Atom

fun rule_rank :: "rule \<Rightarrow> nat" where
  "rule_rank (Argument _) = 6"
| "rule_rank Sum = 5"
| "rule_rank Term = 4"
| "rule_rank Factor = 3"
| "rule_rank Power = 2"
| "rule_rank Primary = 1"
| "rule_rank _ = 0"

function parse :: "rule \<Rightarrow> token list \<Rightarrow> (node \<times> token list) option" where
  "parse Sum ts =
     (case parse Term ts of
        None \<Rightarrow> None
      | Some (t, r) \<Rightarrow> if length r \<le> length ts then parse (SumRest t) r else None)"
| "parse (SumRest acc) [] = Some (acc, [])"
| "parse (SumRest acc) (tok # r) =
     (if tok = PLUS \<or> tok = MINUS
      then (case parse Term r of
              None \<Rightarrow> None
            | Some (t, r') \<Rightarrow>
                if length r' \<le> length r
                then parse (SumRest (BinOp acc (if tok = PLUS then Add else Sub) t)) r'
                else None)
      else Some (acc, tok # r))"
| "parse Term ts =
     (case parse Factor ts of
        None \<Rightarrow> None
      | Some (f, r) \<Rightarrow> if length r \<le> length ts then parse (TermRest f) r else None)"
| "parse (TermRest acc) [] = Some (acc, [])"
| "parse (TermRest acc) (tok # r) =
     (if tok = STAR \<or> tok = SLASH \<or> tok = DOUBLESLASH
      then (case parse Factor r of
              None \<Rightarrow> None
            | Some (f, r') \<Rightarrow>
                if length r' \<le> length r
                then parse (TermRest
                       (BinOp acc (if tok = STAR then Mult
                                   else if tok = SLASH then Div else FloorDiv) f)) r'
                else None)
      else Some (acc, tok # r))"
| "parse Factor [] = None"
| "parse Factor (tok # r) =
     (if tok = PLUS \<or> tok = MINUS
      then (case parse Factor r of
              None \<Rightarrow> None
            | Some (f, r') \<Rightarrow> Some (UnaryOp (if tok = PLUS then UAdd else USub) f, r'))
      else parse Power (tok # r))"
| "parse Power ts =
     (case parse Primary ts of
        None \<Rightarrow> None
      | Some (b, r) \<Rightarrow>
          (case r of
             [] \<Rightarrow> Some (b, r)
           | tok # r' \<Rightarrow>
               if tok = DOUBLESTAR
               then (if length r' < length ts
                     then (case parse Factor r' of
                             None \<Rightarrow> None
                           | Some (e, r'') \<Rightarrow> Some (BinOp b Pow e, r''))
                     else None)
               else Some (b, r)))"
| "parse Primary ts =
     (case parse Atom ts of
        None \<Rightarrow> None
      | Some (a, r) \<Rightarrow> if length r \<le> length ts then parse (Trailers a) r else None)"
| "parse (Trailers f) [] = Some (f, [])"
| "parse (Trailers f) (tok # r) =
     (if tok = LPAR
      then (case parse (Argument f) r of
              None \<Rightarrow> None
            | Some (call, r') \<Rightarrow>
                if length r' \<le> length r then parse (Trailers call) r' else None)
      else Some (f, tok # r))"
| "parse (Argument f) [] = None"
| "parse (Argument f) (tok # r) =
     (if tok = RPAR then Some (Call f [] [], r)
      else if tok = STAR
      then (case parse Sum r of
              None \<Rightarrow> None
            | Some (e, r') \<Rightarrow>
                if r' \<noteq> [] \<and> hd r' = RPAR then Some (Call f [Starred e] [], tl r')
                else None)
      else if tok = DOUBLESTAR
      then (case parse Sum r of
              None \<Rightarrow> None
            | Some (e, r') \<Rightarrow>
                if r' \<noteq> [] \<and> hd r' = RPAR then Some (Call f [] [e], tl r') else None)
      else (case parse Sum (tok # r) of
              None \<Rightarrow> None
            | Some (e, r') \<Rightarrow>
                if r' \<noteq> [] \<and> hd r' = RPAR then Some (Call f [e] [], tl r') else None))"
| "parse Atom [] = None"
| "parse Atom (tok # r) =
     (case tok of
        NUMBER lit \<Rightarrow> Some (Constant (constant_of lit), r)
      | ELLIPSIS \<Rightarrow> Some (Constant EllipsisConst, r)
      | LPAR \<Rightarrow>
          (if r \<noteq> [] \<and> hd r = RPAR then Some (Tuple [], tl r)
           else (case parse Sum r of
                   None \<Rightarrow> None
                 | Some (e, r') \<Rightarrow>
                     if r' \<noteq> [] \<and> hd r' = RPAR then Some (e, tl r') else None))
      | _ \<Rightarrow> None)"
  by pat_completeness auto
termination
  by (relation "measures [\<lambda>(r, ts). length ts, \<lambda>(r, ts). rule_rank r]") auto

declare parse.simps [simp del]

text \<open>The rule \<^verbatim>\<open>eval\<close>: an expression, line ends, and the end of the input.\<close>

definition parse_eval :: "token list \<Rightarrow> node option" where
  "parse_eval ts =
     (case parse Sum ts of
        None \<Rightarrow> None
      | Some (e, r) \<Rightarrow> if dropWhile (\<lambda>t. t = NEWLINE) r = [ENDMARKER] then Some e else None)"

definition ast_parse :: "string \<Rightarrow> py_exn + node" where
  "ast_parse s =
     (case py_tokenize s of
        None \<Rightarrow> Inl SyntaxError
      | Some ts \<Rightarrow>
          (case parse_eval ts of
             None \<Rightarrow> Inl SyntaxError
           | Some e \<Rightarrow> Inr (Expression e)))"

section \<open>The arithmetic primitives (\<^verbatim>\<open>tools/arithmetic.py\<close>)\<close>

definition TOOL_FAILURE_MESSAGE :: string where
  "TOOL_FAILURE_MESSAGE =
     ''I couldn'' @ [CHR 0x27] @ ''t compute that due to invalid input '' @
     ''(e.g., division by zero or non-numeric values).''"

text \<open>
  \<^verbatim>\<open>_to_float\<close>: \<^verbatim>\<open>float(value)\<close>, where a \<^verbatim>\<open>TypeError\<close> or a \<^verbatim>\<open>ValueError\<close>
  becomes the controlled \<^verbatim>\<open>ValueError\<close>; any other exception passes.
\<close>

definition to_float :: "py_value \<Rightarrow> py_exn + pyfloat" where
  "to_float v =
     (case py_float v of
        Inr f \<Rightarrow> Inr f
      | Inl exc \<Rightarrow>
          if is_TypeError_or_ValueError exc
          then Inl (ValueError ''Non-numeric value received.'')
          else Inl exc)"

definition add :: "py_value \<Rightarrow> py_value \<Rightarrow> py_exn + pyfloat" where
  "add a b =
     (case to_float a of
        Inl exc \<Rightarrow> Inl exc
      | Inr left \<Rightarrow>
          (case to_float b of
             Inl exc \<Rightarrow> Inl exc
           | Inr right \<Rightarrow> Inr (float_add left right)))"

definition subtract :: "py_value \<Rightarrow> py_value \<Rightarrow> py_exn + pyfloat" where
  "subtract a b =
     (case to_float a of
        Inl exc \<Rightarrow> Inl exc
      | Inr left \<Rightarrow>
          (case to_float b of
             Inl exc \<Rightarrow> Inl exc
           | Inr right \<Rightarrow> Inr (float_sub left right)))"

definition multiply :: "py_value \<Rightarrow> py_value \<Rightarrow> py_exn + pyfloat" where
  "multiply a b =
     (case to_float a of
        Inl exc \<Rightarrow> Inl exc
      | Inr left \<Rightarrow>
          (case to_float b of
             Inl exc \<Rightarrow> Inl exc
           | Inr right \<Rightarrow> Inr (float_mul left right)))"

definition divide :: "py_value \<Rightarrow> py_value \<Rightarrow> py_exn + pyfloat" where
  "divide a b =
     (case to_float a of
        Inl exc \<Rightarrow> Inl exc
      | Inr left \<Rightarrow>
          (case to_float b of
             Inl exc \<Rightarrow> Inl exc
           | Inr right \<Rightarrow>
               if float_is_zero right
               then Inl (ValueError ''Division by zero is not allowed.'')
               else float_truediv left right))"

section \<open>The agent (\<^verbatim>\<open>agent.py\<close>)\<close>

definition OUT_OF_SCOPE_MESSAGE :: string where
  "OUT_OF_SCOPE_MESSAGE =
     ''I can only help with basic arithmetic (add/subtract/multiply/divide). '' @
     ''Please provide a math expression.''"

definition LLM_SETUP_MESSAGE :: string where
  "LLM_SETUP_MESSAGE =
     ''LLM runtime is unavailable. Set OPENAI_API_KEY and install required '' @
     ''dependencies (`langchain`, `langchain-openai`, `python-dotenv`).''"

subsection \<open>The restricted evaluator\<close>

text \<open>\<^verbatim>\<open>float(prim.func(left, right))\<close>: the primitive on two floats, and its result as a float.\<close>

definition call_primitive ::
  "(py_value \<Rightarrow> py_value \<Rightarrow> py_exn + pyfloat) \<Rightarrow> pyfloat \<Rightarrow> pyfloat \<Rightarrow> py_exn + pyfloat"
where
  "call_primitive prim left right =
     (case prim (PyFloat left) (PyFloat right) of
        Inl exc \<Rightarrow> Inl exc
      | Inr v \<Rightarrow> py_float (PyFloat v))"

definition unsupported :: "py_exn + pyfloat" where
  "unsupported = Inl (ValueError ''Unsupported expression.'')"

fun eval_ast :: "node \<Rightarrow> py_exn + pyfloat" where
  "eval_ast (Expression body) = eval_ast body"
| "eval_ast (Constant c) =
     (case c of
        IntConst i \<Rightarrow> py_float (PyInt i)
      | FloatConst f \<Rightarrow> py_float (PyFloat f)
      | BoolConst b \<Rightarrow> py_float (PyBool b)
      | _ \<Rightarrow> unsupported)"
| "eval_ast (UnaryOp op operand) =
     (if op = UAdd \<or> op = USub
      then (case eval_ast operand of
              Inl exc \<Rightarrow> Inl exc
            | Inr v \<Rightarrow> Inr (if op = UAdd then v else float_neg v))
      else unsupported)"
| "eval_ast (BinOp l op r) =
     (case eval_ast l of
        Inl exc \<Rightarrow> Inl exc
      | Inr left \<Rightarrow>
          (case eval_ast r of
             Inl exc \<Rightarrow> Inl exc
           | Inr right \<Rightarrow>
               if op = Add then call_primitive add left right
               else if op = Sub then call_primitive subtract left right
               else if op = Mult then call_primitive multiply left right
               else if op = Div then call_primitive divide left right
               else unsupported))"
| "eval_ast _ = unsupported"

definition evaluate_pure_expression :: "string \<Rightarrow> py_exn + pyfloat" where
  "evaluate_pure_expression expression =
     (case ast_parse expression of
        Inl exc \<Rightarrow> Inl exc
      | Inr tree \<Rightarrow> eval_ast tree)"

subsection \<open>The gate\<close>

text \<open>
  The patterns \<^verbatim>\<open>[0-9\s\+\-\*/\(\)\.]+\<close>, \<^verbatim>\<open>\d\<close> and \<^verbatim>\<open>[\+\-\*/]\<close>.
\<close>

definition strict_pattern :: regex where
  "strict_pattern =
     Plus (CSet [Range CHR ''0'' CHR ''9'', SpaceClass, Lit CHR ''+'', Lit CHR ''-'',
                 Lit CHR ''*'', Lit CHR ''/'', Lit CHR ''('', Lit CHR '')'', Lit CHR ''.''])"

definition digit_pattern :: regex where
  "digit_pattern = CSet [DigitClass]"

definition operator_pattern :: regex where
  "operator_pattern = CSet [Lit CHR ''+'', Lit CHR ''-'', Lit CHR ''*'', Lit CHR ''/'']"

definition is_strict_pure_expression :: "string \<Rightarrow> bool" where
  "is_strict_pure_expression query =
     (if \<not> re_fullmatch strict_pattern query then False
      else
        let has_digit = re_search digit_pattern query;
            has_operator = re_search operator_pattern query
        in has_digit \<and> has_operator)"

subsection \<open>The response normalizer\<close>

text \<open>The pattern \<^verbatim>\<open>-?\d+(?:\.\d+)?\<close>.\<close>

definition number_pattern :: regex where
  "number_pattern =
     Seq (Opt (CSet [Lit CHR ''-'']))
         (Seq (Plus (CSet [DigitClass]))
              (Opt (Seq (CSet [Lit CHR ''.'']) (Plus (CSet [DigitClass])))))"

fun is_ValueError :: "py_exn \<Rightarrow> bool" where
  "is_ValueError (ValueError _) = True"
| "is_ValueError _ = False"

definition extract_numeric_answer :: "string \<Rightarrow> py_exn + pyfloat option" where
  "extract_numeric_answer text =
     (let candidate = strip text
      in case py_float (PyStr candidate) of
           Inr f \<Rightarrow> Inr (Some f)
         | Inl exc \<Rightarrow>
             if \<not> is_ValueError exc then Inl exc
             else
               let numbers = re_findall number_pattern candidate
               in if numbers \<noteq> []
                  then (case py_float (PyStr (last numbers)) of
                          Inl exc' \<Rightarrow> Inl exc'
                        | Inr f \<Rightarrow> Inr (Some f))
                  else Inr None)"

definition format_numeric :: "pyfloat \<Rightarrow> string" where
  "format_numeric v = float_repr v"

subsection \<open>The orchestrator\<close>

text \<open>
  The agent holds the model runtime and the fallback flag. \<open>executor_invoke\<close> is the
  external runtime as \<^verbatim>\<open>_run_langchain\<close> sees it: for a query it gives the text
  \<^verbatim>\<open>str(result.get("output", ""))\<close>, or the exception that the call raises.
\<close>

record agent =
  executor_invoke :: "string \<Rightarrow> py_exn + string"
  deterministic_fallback :: bool

definition run_langchain :: "agent \<Rightarrow> string \<Rightarrow> py_exn + string" where
  "run_langchain a query =
     (case executor_invoke a query of
        Inl exc \<Rightarrow> Inl exc
      | Inr output \<Rightarrow> Inr (strip output))"

text \<open>
  \<open>ask\<close> returns, with its result, the calls it made to the runtime and to the
  fallback evaluator, in order. \<open>llm_attempt\<close> is the body of the outer
  \<^verbatim>\<open>try\<close>, \<open>fallback\<close> its \<^verbatim>\<open>except Exception\<close> handler.
\<close>

datatype event = RuntimeInvoked string | EvaluatorInvoked string

definition llm_attempt :: "agent \<Rightarrow> string \<Rightarrow> py_exn + string" where
  "llm_attempt a clean_query =
     (case run_langchain a clean_query of
        Inl exc \<Rightarrow> Inl exc
      | Inr llm_output \<Rightarrow>
          (case extract_numeric_answer llm_output of
             Inl exc \<Rightarrow> Inl exc
           | Inr parsed \<Rightarrow>
               (case parsed of
                  Some v \<Rightarrow> Inr (format_numeric v)
                | None \<Rightarrow>
                    if llm_output \<noteq> [] then Inr llm_output
                    else Inr TOOL_FAILURE_MESSAGE)))"

definition fallback :: "agent \<Rightarrow> string \<Rightarrow> event list \<times> (py_exn + string)" where
  "fallback a clean_query =
     (if deterministic_fallback a \<and> is_strict_pure_expression clean_query
      then ([EvaluatorInvoked clean_query],
            case evaluate_pure_expression clean_query of
              Inr v \<Rightarrow> Inr (format_numeric v)
            | Inl exc \<Rightarrow> if is_Exception exc then Inr TOOL_FAILURE_MESSAGE else Inl exc)
      else ([], Inr TOOL_FAILURE_MESSAGE))"

definition ask :: "agent \<Rightarrow> string \<Rightarrow> event list \<times> (py_exn + string)" where
  "ask a query =
     (let clean_query = strip query
      in if clean_query = [] then ([], Inr OUT_OF_SCOPE_MESSAGE)
         else
           (case llm_attempt a clean_query of
              Inr response \<Rightarrow> ([RuntimeInvoked clean_query], Inr response)
            | Inl exc \<Rightarrow>
                if is_Exception exc
                then (RuntimeInvoked clean_query # fst (fallback a clean_query),
                      snd (fallback a clean_query))
                else ([RuntimeInvoked clean_query], Inl exc)))"

section \<open>Auxiliary definitions for the properties\<close>

definition agent_example :: "(py_exn + string) \<Rightarrow> bool \<Rightarrow> agent" where
  "agent_example outcome fb =
     \<lparr>executor_invoke = (\<lambda>query. outcome), deterministic_fallback = fb\<rparr>"

text \<open>
  The alphabet of the gate as the specification words it: a digit, whitespace, one of
  the four operator characters, a parenthesis, or a decimal point.
\<close>

definition gate_alphabet :: "char \<Rightarrow> bool" where
  "gate_alphabet c =
     (py_isdigit c \<or> py_isspace c \<or> c \<in> set ''+-*/'' \<or> c \<in> set ''()'' \<or> c = CHR ''.'')"

definition operator_char :: "char \<Rightarrow> bool" where
  "operator_char c = (c \<in> set ''+-*/'')"

text \<open>
  \<open>divides_by_zero n\<close>: the evaluation of \<open>n\<close> reaches a division whose right
  operand is zero. The evaluator visits the operand of a unary plus or minus, the left
  operand of a binary node and, when that one has a value, the right operand; the
  division itself is reached when both operands have a value.
\<close>

fun divides_by_zero :: "node \<Rightarrow> bool" where
  "divides_by_zero (Expression body) = divides_by_zero body"
| "divides_by_zero (UnaryOp op operand) = ((op = UAdd \<or> op = USub) \<and> divides_by_zero operand)"
| "divides_by_zero (BinOp l op r) =
     (divides_by_zero l \<or>
      (case eval_ast l of
         Inl exc \<Rightarrow> False
       | Inr left \<Rightarrow>
           divides_by_zero r \<or>
           (case eval_ast r of
              Inl exc \<Rightarrow> False
            | Inr right \<Rightarrow> op = Div \<and> float_is_zero right)))"
| "divides_by_zero _ = False"

text \<open>
  A signed decimal as the specification of the normalizer means it: an optional minus
  sign, digits, and optionally a point followed by digits.
\<close>

definition signed_decimal :: "string \<Rightarrow> bool" where
  "signed_decimal m =
     (let body = (if m \<noteq> [] \<and> hd m = CHR ''-'' then tl m else m);
          ip = takeWhile py_isdigit body;
          after = dropWhile py_isdigit body
      in ip \<noteq> [] \<and>
         (after = [] \<or>
          (hd after = CHR ''.'' \<and> tl after \<noteq> [] \<and> list_all py_isdigit (tl after))))"

text \<open>The text of a number with the sign \<open>sign\<close>, the digits \<open>p\<close> and the decimals \<open>q\<close>.\<close>

definition number_text :: "string \<Rightarrow> string \<Rightarrow> string \<Rightarrow> string" where
  "number_text sign p q = sign @ p @ (if q = [] then [] else CHR ''.'' # q)"

definition number_parts :: "string \<Rightarrow> string \<Rightarrow> string \<Rightarrow> bool" where
  "number_parts sign p q =
     ((sign = [] \<or> sign = ''-'') \<and> p \<noteq> [] \<and> list_all py_isdigit p \<and> list_all py_isdigit q)"

section \<open>Standard arithmetic expressions\<close>

text \<open>
  The expression tree of the specification: a literal number, a sign applied to an
  operand, a binary operator applied to two operands. \<open>std_value\<close> is its value in
  the arithmetic of the primitives, left operand first: a float, or the exception of
  the arithmetic (a zero divisor, an integer literal beyond the range of a float).
\<close>

datatype sign = Positive | Negative

datatype binary_operator = Addition | Subtraction | Multiplication | Division

datatype expr =
    Literal number_literal
  | Unary sign expr
  | Binary binary_operator expr expr



fun operator_node :: "binary_operator \<Rightarrow> operator" where
  "operator_node Addition = Add"
| "operator_node Subtraction = Sub"
| "operator_node Multiplication = Mult"
| "operator_node Division = Div"

fun to_node :: "expr \<Rightarrow> node" where
  "to_node (Literal lit) = Constant (constant_of lit)"
| "to_node (Unary s e) = UnaryOp (case s of Positive \<Rightarrow> UAdd | Negative \<Rightarrow> USub) (to_node e)"
| "to_node (Binary op l r) = BinOp (to_node l) (operator_node op) (to_node r)"





text \<open>The trees that the evaluator visits without raising for a syntactic reason.\<close>

fun supported :: "node \<Rightarrow> bool" where
  "supported (Expression body) = supported body"
| "supported (Constant c) =
     (case c of IntConst i \<Rightarrow> True | FloatConst f \<Rightarrow> True | BoolConst b \<Rightarrow> True | _ \<Rightarrow> False)"
| "supported (UnaryOp op operand) = ((op = UAdd \<or> op = USub) \<and> supported operand)"
| "supported (BinOp l op r) =
     ((op = Add \<or> op = Sub \<or> op = Mult \<or> op = Div) \<and> supported l \<and> supported r)"
| "supported _ = False"





section \<open>Exceptions of the evaluator and of the normalizer\<close>

lemma int_to_float_exn: "int_to_float i = Inl e \<Longrightarrow> is_Exception e"
  by (auto simp: int_to_float_def split: pyfloat.splits)

lemma float_of_string_exn: "float_of_string s = Inl e \<Longrightarrow> is_ValueError e"
  by (auto simp: float_of_string_def split: option.splits)

lemma is_ValueError_Exception: "is_ValueError e \<Longrightarrow> is_Exception e"
  by (cases e) auto

lemma py_float_exn: "py_float v = Inl e \<Longrightarrow> is_Exception e"
  by (cases v) (auto dest: int_to_float_exn float_of_string_exn is_ValueError_Exception)

lemma to_float_PyFloat [simp]: "to_float (PyFloat f) = Inr f"
  by (simp add: to_float_def)

lemma call_primitive_simps [simp]:
  "call_primitive add l r = Inr (float_add l r)"
  "call_primitive subtract l r = Inr (float_sub l r)"
  "call_primitive multiply l r = Inr (float_mul l r)"
  "call_primitive divide l r =
     (if float_is_zero r then Inl (ValueError ''Division by zero is not allowed.'')
      else Inr (float_quotient l r))"
  by (simp_all add: call_primitive_def add_def subtract_def multiply_def divide_def
        float_truediv_def)

lemma eval_ast_exn: "eval_ast n = Inl e \<Longrightarrow> is_Exception e"
proof (induction n arbitrary: e rule: eval_ast.induct)
  case (2 c)
  then show ?case
    by (cases c) (auto simp: unsupported_def dest: py_float_exn int_to_float_exn)
next
  case (3 op operand)
  then show ?case
    by (auto simp: unsupported_def split: if_splits sum.splits)
next
  case (4 l op r)
  then show ?case
    by (auto simp: unsupported_def split: if_splits sum.splits)
qed (auto simp: unsupported_def)

lemma ast_parse_exn: "ast_parse s = Inl e \<Longrightarrow> e = SyntaxError"
  by (auto simp: ast_parse_def split: option.splits)

lemma evaluate_pure_expression_exn:
  "evaluate_pure_expression s = Inl e \<Longrightarrow> is_Exception e"
  by (auto simp: evaluate_pure_expression_def split: sum.splits
           dest: ast_parse_exn eval_ast_exn)

lemma extract_numeric_answer_exn:
  "extract_numeric_answer t = Inl e \<Longrightarrow> is_Exception e"
  by (auto simp: extract_numeric_answer_def Let_def
           split: sum.splits if_splits
           dest!: float_of_string_exn is_ValueError_Exception)

lemma ask_blank: "strip q = [] \<Longrightarrow> ask a q = ([], Inr OUT_OF_SCOPE_MESSAGE)"
  by (simp add: ask_def)

lemma ask_answered:
  "strip q \<noteq> [] \<Longrightarrow> llm_attempt a (strip q) = Inr r \<Longrightarrow>
   ask a q = ([RuntimeInvoked (strip q)], Inr r)"
  by (simp add: ask_def)

lemma ask_failed:
  "strip q \<noteq> [] \<Longrightarrow> llm_attempt a (strip q) = Inl exc \<Longrightarrow> is_Exception exc \<Longrightarrow>
   ask a q = (RuntimeInvoked (strip q) # fst (fallback a (strip q)),
              snd (fallback a (strip q)))"
  by (simp add: ask_def Let_def)

lemma ask_uncaught:
  "strip q \<noteq> [] \<Longrightarrow> llm_attempt a (strip q) = Inl exc \<Longrightarrow> \<not> is_Exception exc \<Longrightarrow>
   ask a q = ([RuntimeInvoked (strip q)], Inl exc)"
  by (simp add: ask_def Let_def)

lemma llm_attempt_raises:
  "executor_invoke a q = Inl exc \<Longrightarrow> llm_attempt a q = Inl exc"
  by (simp add: llm_attempt_def run_langchain_def)

lemma llm_attempt_exn:
  assumes "llm_attempt a q = Inl exc"
    and "\<And>e. executor_invoke a q = Inl e \<Longrightarrow> is_Exception e"
  shows "is_Exception exc"
  using assms
  by (auto simp: llm_attempt_def run_langchain_def
           split: sum.splits option.splits if_splits
           dest: extract_numeric_answer_exn)

lemma fallback_returns: "\<exists>r. snd (fallback a q) = Inr r"
  by (auto simp: fallback_def split: sum.splits dest: evaluate_pure_expression_exn)

lemma fallback_disabled:
  "\<not> deterministic_fallback a \<Longrightarrow> fallback a q = ([], Inr TOOL_FAILURE_MESSAGE)"
  by (simp add: fallback_def)

lemma fallback_gate_closed:
  "\<not> is_strict_pure_expression q \<Longrightarrow> fallback a q = ([], Inr TOOL_FAILURE_MESSAGE)"
  by (simp add: fallback_def)

lemma fallback_events:
  "EvaluatorInvoked x \<in> set (fst (fallback a q)) \<Longrightarrow>
   x = q \<and> deterministic_fallback a \<and> is_strict_pure_expression q"
  by (auto simp: fallback_def split: if_splits)

lemma fallback_no_runtime: "RuntimeInvoked x \<notin> set (fst (fallback a q))"
  by (auto simp: fallback_def)

lemma ask_runtime_invoked:
  assumes "RuntimeInvoked x \<in> set (fst (ask a query))"
  shows "x = strip query \<and> strip query \<noteq> []"
proof (cases "strip query = []")
  case True
  with assms show ?thesis by (simp add: ask_blank)
next
  case False
  show ?thesis
  proof (cases "llm_attempt a (strip query)")
    case (Inr r)
    with False assms show ?thesis by (simp add: ask_answered)
  next
    case (Inl exc)
    with False assms show ?thesis
      by (cases "is_Exception exc") (auto simp: ask_failed ask_uncaught fallback_no_runtime)
  qed
qed

lemma ask_evaluator_invoked:
  assumes "EvaluatorInvoked x \<in> set (fst (ask a query))"
  shows "x = strip query \<and> deterministic_fallback a \<and> is_strict_pure_expression (strip query)"
proof (cases "strip query = []")
  case True
  with assms show ?thesis by (simp add: ask_blank)
next
  case False
  show ?thesis
  proof (cases "llm_attempt a (strip query)")
    case (Inr r)
    with False assms show ?thesis by (simp add: ask_answered)
  next
    case (Inl exc)
    show ?thesis
    proof (cases "is_Exception exc")
      case True
      with False Inl assms show ?thesis
        by (auto simp: ask_failed dest: fallback_events)
    next
      case nexc: False
      with False Inl assms show ?thesis by (simp add: ask_uncaught)
    qed
  qed
qed

section \<open>The gate\<close>

lemma rmatch_cset [simp]:
  "rmatch (CSet items) [] = []"
  "rmatch (CSet items) (c # cs) = (if cset_matches items c then [cs] else [])"
  by (simp_all add: rmatch.simps(1))

lemma rmatch_plus_cset_Nil [simp]: "rmatch (Plus (CSet items)) [] = []"
  by (subst rmatch.simps(4)) simp

lemma rmatch_plus_cset_Cons [simp]:
  "rmatch (Plus (CSet items)) (c # cs) =
     (if cset_matches items c then rmatch (Plus (CSet items)) cs @ [cs] else [])"
  by (subst rmatch.simps(4)) simp

lemma fullmatch_plus_cset:
  "re_fullmatch (Plus (CSet items)) s = (s \<noteq> [] \<and> list_all (cset_matches items) s)"
proof -
  have "([] \<in> set (rmatch (Plus (CSet items)) s)) =
          (s \<noteq> [] \<and> list_all (cset_matches items) s)"
  proof (induction s)
    case Nil
    show ?case by simp
  next
    case (Cons c cs)
    show ?case
    proof (cases "cset_matches items c")
      case True
      have "([] \<in> set (rmatch (Plus (CSet items)) (c # cs))) =
              ([] \<in> set (rmatch (Plus (CSet items)) cs) \<or> [] = cs)"
        using True by auto
      also have "\<dots> = list_all (cset_matches items) cs"
        unfolding Cons.IH by (cases cs) auto
      finally show ?thesis using True by simp
    next
      case False
      then show ?thesis by simp
    qed
  qed
  then show ?thesis by (simp add: re_fullmatch_def list_ex_iff)
qed

lemma search_cset: "re_search (CSet items) s = list_ex (cset_matches items) s"
proof (induction s)
  case Nil
  show ?case by simp
next
  case (Cons c cs)
  then show ?case by (cases "cset_matches items c") simp_all
qed

lemma strict_class: "cset_matches
   [Range CHR ''0'' CHR ''9'', SpaceClass, Lit CHR ''+'', Lit CHR ''-'',
    Lit CHR ''*'', Lit CHR ''/'', Lit CHR ''('', Lit CHR '')'', Lit CHR ''.''] c = gate_alphabet c"
  by (auto simp: cset_matches_def gate_alphabet_def py_isdigit_def Let_def)

lemma digit_class: "cset_matches [DigitClass] c = py_isdigit c"
  by (simp add: cset_matches_def)

lemma operator_class:
  "cset_matches [Lit CHR ''+'', Lit CHR ''-'', Lit CHR ''*'', Lit CHR ''/''] c = operator_char c"
  by (auto simp: cset_matches_def operator_char_def)

lemma gate_iff:
  "is_strict_pure_expression q =
     (list_all gate_alphabet q \<and> list_ex py_isdigit q \<and> list_ex operator_char q)"
proof -
  have a: "cset_matches
   [Range CHR ''0'' CHR ''9'', SpaceClass, Lit CHR ''+'', Lit CHR ''-'',
    Lit CHR ''*'', Lit CHR ''/'', Lit CHR ''('', Lit CHR '')'', Lit CHR ''.''] = gate_alphabet"
    by (rule ext) (rule strict_class)
  have b: "cset_matches [DigitClass] = py_isdigit"
    by (rule ext) (rule digit_class)
  have c: "cset_matches [Lit CHR ''+'', Lit CHR ''-'', Lit CHR ''*'', Lit CHR ''/''] = operator_char"
    by (rule ext) (rule operator_class)
  show ?thesis
    unfolding is_strict_pure_expression_def strict_pattern_def digit_pattern_def
      operator_pattern_def fullmatch_plus_cset search_cset a b c Let_def
    by (auto simp: list_ex_iff)
qed

lemma gate_nonempty: "is_strict_pure_expression q \<Longrightarrow> q \<noteq> []"
  by (auto simp: gate_iff)

lemma dropWhile_keeps: "c \<in> set xs \<Longrightarrow> \<not> P c \<Longrightarrow> c \<in> set (dropWhile P xs)"
proof (induction xs)
  case Nil
  then show ?case by simp
next
  case (Cons x xs)
  then show ?case by (cases "P x") auto
qed

lemma strip_keeps:
  assumes "c \<in> set s" "\<not> py_isspace c"
  shows "c \<in> set (strip s)"
proof -
  have "c \<in> set (dropWhile py_isspace s)"
    using assms by (rule dropWhile_keeps)
  then have "c \<in> set (rev (dropWhile py_isspace s))" by simp
  then have "c \<in> set (dropWhile py_isspace (rev (dropWhile py_isspace s)))"
    using assms(2) by (rule dropWhile_keeps)
  then show ?thesis by (simp add: strip_def)
qed

lemma gate_rejects_after_strip:
  assumes "c \<in> set q" "\<not> gate_alphabet c"
  shows "\<not> is_strict_pure_expression (strip q)"
proof -
  have "\<not> py_isspace c" using assms(2) by (auto simp: gate_alphabet_def)
  with assms(1) have "c \<in> set (strip q)" by (rule strip_keeps)
  with assms(2) show ?thesis by (auto simp: gate_iff list_all_iff)
qed


section \<open>Auxiliary facts about the evaluator and the orchestrator\<close>

lemma divides_by_zero_raises:
  "divides_by_zero n \<Longrightarrow> eval_ast n = Inl (ValueError ''Division by zero is not allowed.'')"
proof (induction n rule: eval_ast.induct)
  case (4 l op r)
  show ?case
  proof (cases "divides_by_zero l")
    case True
    with 4 show ?thesis by simp
  next
    case False
    with "4.prems" obtain left where left: "eval_ast l = Inr left"
      by (auto split: sum.splits)
    show ?thesis
    proof (cases "divides_by_zero r")
      case True
      with 4 left show ?thesis by simp
    next
      case nr: False
      with "4.prems" False left obtain right
        where "eval_ast r = Inr right" "op = Div" "float_is_zero right"
        by (auto split: sum.splits)
      with left show ?thesis by simp
    qed
  qed
qed (auto split: sum.splits)

lemma divide_by_zero: 
  "to_float x = Inr l \<Longrightarrow> to_float y = Inr r \<Longrightarrow> float_is_zero r \<Longrightarrow>
   divide x y = Inl (ValueError ''Division by zero is not allowed.'')"
  by (simp add: divide_def)

lemma llm_attempt_cases:
  assumes "executor_invoke a q = Inr output"
  shows "(\<exists>v. llm_attempt a q = Inr (format_numeric v)) \<or>
         llm_attempt a q = Inr (strip output) \<or>
         llm_attempt a q = Inr TOOL_FAILURE_MESSAGE \<or>
         (\<exists>exc. llm_attempt a q = Inl exc \<and> is_Exception exc)"
  using assms
  by (auto simp: llm_attempt_def run_langchain_def
           split: sum.splits option.splits dest: extract_numeric_answer_exn)

lemma fallback_cases:
  "snd (fallback a q) = Inr TOOL_FAILURE_MESSAGE \<or>
   (\<exists>v. evaluate_pure_expression q = Inr v \<and> snd (fallback a q) = Inr (format_numeric v))"
  by (auto simp: fallback_def split: sum.splits dest: evaluate_pure_expression_exn)

lemma fallback_flag_only:
  "deterministic_fallback a' = deterministic_fallback a \<Longrightarrow> fallback a' q = fallback a q"
  by (simp add: fallback_def)

lemma ask_runtime_raised:
  assumes "executor_invoke a (strip query) = Inl exc" "is_Exception exc"
  shows "snd (ask a query) =
           (if strip query = [] then Inr OUT_OF_SCOPE_MESSAGE
            else snd (fallback a (strip query)))"
proof (cases "strip query = []")
  case True
  then show ?thesis by (simp add: ask_blank)
next
  case False
  have "llm_attempt a (strip query) = Inl exc"
    using assms(1) by (rule llm_attempt_raises)
  with False assms(2) show ?thesis by (simp add: ask_failed)
qed

lemma ask_numeric_answer:
  assumes "strip query \<noteq> []"
    and "executor_invoke a (strip query) = Inr output"
    and "extract_numeric_answer (strip output) = Inr (Some v)"
  shows "ask a query = ([RuntimeInvoked (strip query)], Inr (format_numeric v))"
proof -
  have "llm_attempt a (strip query) = Inr (format_numeric v)"
    using assms(2,3) by (simp add: llm_attempt_def run_langchain_def)
  with assms(1) show ?thesis by (simp add: ask_answered)
qed

section \<open>The number pattern and the normalizer\<close>

lemma set_rmatch_Seq:
  "set (rmatch (Seq a b) s) = (\<Union>r \<in> set (rmatch a s). set (rmatch b r))"
  by (simp add: rmatch.simps(2))

lemma set_rmatch_Opt: "set (rmatch (Opt a) s) = insert s (set (rmatch a s))"
  by (simp add: rmatch.simps(3))

lemma set_rmatch_plus_cset:
  "(r \<in> set (rmatch (Plus (CSet items)) s)) =
     (\<exists>p. p \<noteq> [] \<and> list_all (cset_matches items) p \<and> s = p @ r)"
proof (induction s)
  case Nil
  show ?case by simp
next
  case (Cons c cs)
  show ?case
  proof (cases "cset_matches items c")
    case False
    have "\<not> (\<exists>p. p \<noteq> [] \<and> list_all (cset_matches items) p \<and> c # cs = p @ r)"
    proof
      assume "\<exists>p. p \<noteq> [] \<and> list_all (cset_matches items) p \<and> c # cs = p @ r"
      then obtain p where "p \<noteq> []" "list_all (cset_matches items) p" "c # cs = p @ r"
        by blast
      then show False using False by (cases p) auto
    qed
    with False show ?thesis by simp
  next
    case True
    have "(r \<in> set (rmatch (Plus (CSet items)) (c # cs))) =
            (r \<in> set (rmatch (Plus (CSet items)) cs) \<or> r = cs)"
      using True by auto
    also have "\<dots> = ((\<exists>p. p \<noteq> [] \<and> list_all (cset_matches items) p \<and> cs = p @ r) \<or> r = cs)"
      by (simp only: Cons.IH)
    also have "\<dots> = (\<exists>p. p \<noteq> [] \<and> list_all (cset_matches items) p \<and> c # cs = p @ r)"
    proof
      assume "(\<exists>p. p \<noteq> [] \<and> list_all (cset_matches items) p \<and> cs = p @ r) \<or> r = cs"
      then show "\<exists>p. p \<noteq> [] \<and> list_all (cset_matches items) p \<and> c # cs = p @ r"
      proof
        assume "\<exists>p. p \<noteq> [] \<and> list_all (cset_matches items) p \<and> cs = p @ r"
        then obtain p where "list_all (cset_matches items) p" "cs = p @ r" by blast
        with True have "c # p \<noteq> [] \<and> list_all (cset_matches items) (c # p) \<and> c # cs = (c # p) @ r"
          by simp
        then show ?thesis by blast
      next
        assume "r = cs"
        with True have "[c] \<noteq> [] \<and> list_all (cset_matches items) [c] \<and> c # cs = [c] @ r"
          by simp
        then show ?thesis by blast
      qed
    next
      assume "\<exists>p. p \<noteq> [] \<and> list_all (cset_matches items) p \<and> c # cs = p @ r"
      then obtain p where p: "p \<noteq> []" "list_all (cset_matches items) p" "c # cs = p @ r"
        by blast
      then obtain p' where p': "p = c # p'" by (cases p) auto
      show "(\<exists>p. p \<noteq> [] \<and> list_all (cset_matches items) p \<and> cs = p @ r) \<or> r = cs"
      proof (cases "p' = []")
        case True
        with p p' show ?thesis by simp
      next
        case False
        with p p' have "p' \<noteq> [] \<and> list_all (cset_matches items) p' \<and> cs = p' @ r" by simp
        then show ?thesis by blast
      qed
    qed
    finally show ?thesis .
  qed
qed

lemma digits_class: "list_all (cset_matches [DigitClass]) p = list_all py_isdigit p"
  by (simp add: list_all_iff digit_class)

text \<open>What a match of the number pattern looks like.\<close>

lemma number_pattern_match:
  assumes "r \<in> set (rmatch number_pattern s)"
  shows "\<exists>sign p frac. s = sign @ p @ frac @ r \<and> (sign = [] \<or> sign = ''-'') \<and>
           p \<noteq> [] \<and> list_all py_isdigit p \<and>
           (frac = [] \<or> (\<exists>q. frac = CHR ''.'' # q \<and> q \<noteq> [] \<and> list_all py_isdigit q))"
proof -
  from assms obtain s1 s2 where
    s1: "s1 \<in> set (rmatch (Opt (CSet [Lit CHR ''-''])) s)" and
    s2: "s2 \<in> set (rmatch (Plus (CSet [DigitClass])) s1)" and
    r: "r \<in> set (rmatch (Opt (Seq (CSet [Lit CHR ''.'']) (Plus (CSet [DigitClass])))) s2)"
    unfolding number_pattern_def set_rmatch_Seq by blast
  from s1 have sign: "\<exists>sign. s = sign @ s1 \<and> (sign = [] \<or> sign = ''-'')"
    unfolding set_rmatch_Opt
    by (cases s) (auto simp: cset_matches_def split: if_splits)
  from s2 obtain p where p: "p \<noteq> []" "list_all py_isdigit p" "s1 = p @ s2"
    unfolding set_rmatch_plus_cset digits_class by blast
  from r have frac: "\<exists>frac. s2 = frac @ r \<and>
      (frac = [] \<or> (\<exists>q. frac = CHR ''.'' # q \<and> q \<noteq> [] \<and> list_all py_isdigit q))"
  proof -
    from r have "r = s2 \<or> r \<in> set (rmatch (Seq (CSet [Lit CHR ''.'']) (Plus (CSet [DigitClass]))) s2)"
      unfolding set_rmatch_Opt by blast
    then show ?thesis
    proof
      assume "r = s2"
      then show ?thesis by simp
    next
      assume "r \<in> set (rmatch (Seq (CSet [Lit CHR ''.'']) (Plus (CSet [DigitClass]))) s2)"
      then obtain s3 where s3: "s3 \<in> set (rmatch (CSet [Lit CHR ''.'']) s2)"
        and r3: "r \<in> set (rmatch (Plus (CSet [DigitClass])) s3)"
        unfolding set_rmatch_Seq by blast
      from s3 have "s2 = CHR ''.'' # s3"
        by (cases s2) (auto simp: cset_matches_def split: if_splits)
      moreover from r3 obtain q where "q \<noteq> []" "list_all py_isdigit q" "s3 = q @ r"
        unfolding set_rmatch_plus_cset digits_class by blast
      ultimately have "s2 = (CHR ''.'' # q) @ r \<and>
         (\<exists>q'. CHR ''.'' # q = CHR ''.'' # q' \<and> q' \<noteq> [] \<and> list_all py_isdigit q')"
        by simp
      then show ?thesis by blast
    qed
  qed
  from sign p frac show ?thesis by auto
qed


lemma digit_facts:
  assumes "py_isdigit c"
  shows "c \<noteq> CHR ''-''" "c \<noteq> CHR ''+''" "c \<noteq> CHR ''.''" "c \<noteq> CHR ''_''"
    "\<not> is_ascii_space c" "(of_char c :: nat) < 128" "\<not> py_isspace c"
  using assms by (auto simp: py_isdigit_def is_ascii_space_def py_isspace_def Let_def)

lemma takeWhile_digits_then:
  assumes "list_all py_isdigit p" "frac = [] \<or> \<not> py_isdigit (hd frac)"
  shows "takeWhile py_isdigit (p @ frac) = p" "dropWhile py_isdigit (p @ frac) = frac"
proof -
  have t: "takeWhile py_isdigit frac = []" and d: "dropWhile py_isdigit frac = frac"
    using assms(2) by (cases frac; simp)+
  from assms(1) have all: "\<And>x. x \<in> set p \<Longrightarrow> py_isdigit x" by (simp add: list_all_iff)
  show "takeWhile py_isdigit (p @ frac) = p"
    using all t by (simp add: takeWhile_append2)
  show "dropWhile py_isdigit (p @ frac) = frac"
    using all d by (simp add: dropWhile_append2)
qed

lemma number_text_signed_decimal:
  assumes "sign = [] \<or> sign = ''-''" "p \<noteq> []" "list_all py_isdigit p" "list_all py_isdigit q"
  shows "signed_decimal (number_text sign p q)"
proof -
  let ?frac = "if q = [] then [] else CHR ''.'' # q"
  have frac: "?frac = [] \<or> \<not> py_isdigit (hd ?frac)"
    by (simp add: py_isdigit_def)
  obtain d ds where p: "p = d # ds" using assms(2) by (cases p) auto
  with assms(3) have d: "py_isdigit d" by simp
  have body: "(if number_text sign p q \<noteq> [] \<and> hd (number_text sign p q) = CHR ''-''
               then tl (number_text sign p q) else number_text sign p q) = p @ ?frac"
    using assms(1) p digit_facts(1) [OF d] by (auto simp: number_text_def)
  show ?thesis
    unfolding signed_decimal_def body Let_def
      takeWhile_digits_then [OF assms(3) frac]
    using assms(2,4) by simp
qed

lemma drop_underscores_none:
  assumes "\<forall>c \<in> set s. c \<noteq> CHR ''_''" "prev \<noteq> Some CHR ''_''"
  shows "drop_underscores prev s = Some s"
  using assms by (induction s arbitrary: prev) auto

lemma float_of_number_text:
  assumes "sign = [] \<or> sign = ''-''" "p \<noteq> []" "list_all py_isdigit p" "list_all py_isdigit q"
  shows "float_of_string (number_text sign p q)
           = Inr (decimal_to_double (sign = ''-'') p q 0)"
proof -
  let ?frac = "if q = [] then [] else CHR ''.'' # q"
  let ?m = "number_text sign p q"
  have frac: "?frac = [] \<or> \<not> py_isdigit (hd ?frac)"
    by (simp add: py_isdigit_def)
  obtain d ds where p: "p = d # ds" using assms(2) by (cases p) auto
  with assms(3) have d: "py_isdigit d" by simp
  have chars: "\<forall>c \<in> set ?m. py_isdigit c \<or> c = CHR ''-'' \<or> c = CHR ''.''"
    using assms by (auto simp: number_text_def list_all_iff)
  have ascii: "list_all (\<lambda>c. (of_char c :: nat) < 128) ?m"
    using chars digit_facts(6) by (auto simp: list_all_iff)
  have no_us: "\<forall>c \<in> set ?m. c \<noteq> CHR ''_''"
    using chars digit_facts(4) by auto
  have no_sp: "\<forall>c \<in> set ?m. \<not> is_ascii_space c"
    using chars digit_facts(5) by (auto simp: is_ascii_space_def)
  have ne: "?m \<noteq> []" using assms(2) by (simp add: number_text_def)
  have lead: "dropWhile is_ascii_space ?m = ?m"
    using ne no_sp by (cases ?m) auto
  have "rev ?m \<noteq> []" using ne by simp
  moreover have "\<forall>c \<in> set (rev ?m). \<not> is_ascii_space c" using no_sp by simp
  ultimately have trail: "dropWhile is_ascii_space (rev ?m) = rev ?m"
    by (cases "rev ?m") auto
  have sd: "string_to_double ?m = Some (decimal_to_double (sign = ''-'') p q 0)"
  proof -
    have split: "split_sign ?m = (sign = ''-'', p @ ?frac)"
      using assms(1) p digit_facts(1,2) [OF d]
      by (auto simp: split_sign_def number_text_def)
    have pd: "parse_decimal neg (p @ ?frac) = Some (decimal_to_double neg p q 0)" for neg
    proof -
      have all: "\<And>x. x \<in> set q \<Longrightarrow> py_isdigit x"
        using assms(4) by (simp add: list_all_iff)
      have tq: "takeWhile py_isdigit q = q" using all by (simp add: takeWhile_eq_all_conv)
      have dq: "dropWhile py_isdigit q = []" using all by simp
      show ?thesis
        unfolding parse_decimal_def Let_def takeWhile_digits_then [OF assms(3) frac]
        using assms(2) by (cases "q = []") (simp_all add: parse_exponent_def tq dq)
    qed
    show ?thesis by (simp add: string_to_double_def split pd)
  qed
  have "transform_decimal_and_space ?m = ?m"
    using ascii by (simp add: transform_decimal_and_space_def)
  moreover have "drop_underscores None ?m = Some ?m"
    using no_us by (simp add: drop_underscores_none)
  ultimately show ?thesis
    by (simp add: float_of_string_def lead trail sd)
qed

lemma number_pattern_match_text:
  assumes "r \<in> set (rmatch number_pattern s)"
  shows "\<exists>sign p q. s = number_text sign p q @ r \<and> (sign = [] \<or> sign = ''-'') \<and>
           p \<noteq> [] \<and> list_all py_isdigit p \<and> list_all py_isdigit q"
proof -
  from number_pattern_match [OF assms] obtain sign p frac where
    h: "s = sign @ p @ frac @ r" "sign = [] \<or> sign = ''-''" "p \<noteq> []" "list_all py_isdigit p"
       "frac = [] \<or> (\<exists>q. frac = CHR ''.'' # q \<and> q \<noteq> [] \<and> list_all py_isdigit q)"
    by blast
  from h(5) show ?thesis
  proof
    assume "frac = []"
    with h have "s = number_text sign p [] @ r \<and> (sign = [] \<or> sign = ''-'') \<and>
           p \<noteq> [] \<and> list_all py_isdigit p \<and> list_all py_isdigit []"
      by (simp add: number_text_def)
    then show ?thesis by blast
  next
    assume "\<exists>q. frac = CHR ''.'' # q \<and> q \<noteq> [] \<and> list_all py_isdigit q"
    then obtain q where "frac = CHR ''.'' # q" "q \<noteq> []" "list_all py_isdigit q" by blast
    with h have "s = number_text sign p q @ r \<and> (sign = [] \<or> sign = ''-'') \<and>
           p \<noteq> [] \<and> list_all py_isdigit p \<and> list_all py_isdigit q"
      by (simp add: number_text_def)
    then show ?thesis by blast
  qed
qed


lemma number_text_has_digit:
  "number_parts sign p q \<Longrightarrow> list_ex py_isdigit (number_text sign p q)"
  by (cases p) (auto simp: number_parts_def number_text_def)

lemma number_text_nonempty: "number_parts sign p q \<Longrightarrow> number_text sign p q \<noteq> []"
  by (auto simp: number_parts_def number_text_def)

lemma digit_starts_match:
  assumes "py_isdigit c"
  shows "rmatch number_pattern (c # cs) \<noteq> []"
proof -
  have "[c] \<noteq> [] \<and> list_all (cset_matches [DigitClass]) [c] \<and> c # cs = [c] @ cs"
    using assms by (simp add: digit_class)
  then have "cs \<in> set (rmatch (Plus (CSet [DigitClass])) (c # cs))"
    unfolding set_rmatch_plus_cset by blast
  then have "cs \<in> set (rmatch number_pattern (c # cs))"
    unfolding number_pattern_def set_rmatch_Seq set_rmatch_Opt by blast
  then show ?thesis by auto
qed

lemma findall_step_nomatch:
  assumes "rmatch number_pattern s = []"
  shows "re_findall number_pattern s =
           (case s of [] \<Rightarrow> [] | c # cs \<Rightarrow> re_findall number_pattern cs)"
    and "s \<noteq> [] \<Longrightarrow> \<not> py_isdigit (hd s)"
proof -
  show "re_findall number_pattern s =
           (case s of [] \<Rightarrow> [] | c # cs \<Rightarrow> re_findall number_pattern cs)"
    using assms by (subst re_findall.simps) simp
  show "s \<noteq> [] \<Longrightarrow> \<not> py_isdigit (hd s)"
    using assms digit_starts_match by (cases s) auto
qed

lemma findall_step_match:
  assumes "rmatch number_pattern s = rest # others"
  shows "\<exists>sign p q. number_parts sign p q \<and> s = number_text sign p q @ rest \<and>
           re_findall number_pattern s = number_text sign p q # re_findall number_pattern rest"
proof -
  have "rest \<in> set (rmatch number_pattern s)" using assms by simp
  from number_pattern_match_text [OF this] obtain sign p q where
    h: "s = number_text sign p q @ rest" "number_parts sign p q"
    unfolding number_parts_def by blast
  have ne: "number_text sign p q \<noteq> []" using h(2) by (rule number_text_nonempty)
  with h(1) have len: "length rest < length s" by simp
  have "take (length s - length rest) s = number_text sign p q"
    using h(1) by simp
  with len assms have "re_findall number_pattern s
      = number_text sign p q # re_findall number_pattern rest"
    by (subst re_findall.simps) simp
  with h show ?thesis by blast
qed

lemma findall_numbers:
  "m \<in> set (re_findall number_pattern s) \<Longrightarrow>
   \<exists>sign p q. number_parts sign p q \<and> m = number_text sign p q"
proof (induction s arbitrary: m rule: length_induct)
  case (1 s)
  show ?case
  proof (cases "rmatch number_pattern s")
    case Nil
    show ?thesis
    proof (cases s)
      case Nil
      with \<open>rmatch number_pattern s = []\<close> "1.prems" show ?thesis
        by (simp add: findall_step_nomatch(1))
    next
      case (Cons c cs)
      with \<open>rmatch number_pattern s = []\<close> "1.prems"
      have "m \<in> set (re_findall number_pattern cs)"
        by (simp add: findall_step_nomatch(1))
      moreover have "length cs < length s" using Cons by simp
      ultimately show ?thesis using "1.IH" by blast
    qed
  next
    case (Cons rest others)
    from findall_step_match [OF Cons] obtain sign p q where
      h: "number_parts sign p q" "s = number_text sign p q @ rest"
         "re_findall number_pattern s = number_text sign p q # re_findall number_pattern rest"
      by blast
    have len: "length rest < length s"
      using h(1,2) number_text_nonempty [OF h(1)] by simp
    from "1.prems" h(3) have "m = number_text sign p q \<or> m \<in> set (re_findall number_pattern rest)"
      by simp
    then show ?thesis
    proof
      assume "m = number_text sign p q"
      with h(1) show ?thesis by blast
    next
      assume "m \<in> set (re_findall number_pattern rest)"
      with len "1.IH" show ?thesis by blast
    qed
  qed
qed

lemma findall_empty_iff:
  "(re_findall number_pattern s = []) = (\<not> list_ex py_isdigit s)"
proof (induction s rule: length_induct)
  case (1 s)
  show ?case
  proof (cases "rmatch number_pattern s")
    case Nil
    show ?thesis
    proof (cases s)
      case Nil
      with \<open>rmatch number_pattern s = []\<close> show ?thesis
        by (simp add: findall_step_nomatch(1))
    next
      case (Cons c cs)
      have nd: "\<not> py_isdigit c"
        using findall_step_nomatch(2) [OF \<open>rmatch number_pattern s = []\<close>] Cons by simp
      have "re_findall number_pattern s = re_findall number_pattern cs"
        using \<open>rmatch number_pattern s = []\<close> Cons by (simp add: findall_step_nomatch(1))
      moreover have "length cs < length s" using Cons by simp
      ultimately show ?thesis using "1.IH" nd Cons by simp
    qed
  next
    case (Cons rest others)
    from findall_step_match [OF Cons] obtain sign p q where
      h: "number_parts sign p q" "s = number_text sign p q @ rest"
         "re_findall number_pattern s = number_text sign p q # re_findall number_pattern rest"
      by blast
    from number_text_has_digit [OF h(1)] h(2) have "list_ex py_isdigit s"
      by (auto simp: list_ex_iff)
    with h(3) show ?thesis by simp
  qed
qed

lemma findall_last:
  "re_findall number_pattern s \<noteq> [] \<Longrightarrow>
   \<exists>pre post. s = pre @ last (re_findall number_pattern s) @ post \<and>
              \<not> list_ex py_isdigit post"
proof (induction s rule: length_induct)
  case (1 s)
  show ?case
  proof (cases "rmatch number_pattern s")
    case Nil
    show ?thesis
    proof (cases s)
      case Nil
      with \<open>rmatch number_pattern s = []\<close> "1.prems" show ?thesis
        by (simp add: findall_step_nomatch(1))
    next
      case (Cons c cs)
      have eq: "re_findall number_pattern s = re_findall number_pattern cs"
        using \<open>rmatch number_pattern s = []\<close> Cons by (simp add: findall_step_nomatch(1))
      moreover have "length cs < length s" using Cons by simp
      ultimately obtain pre post where
        "cs = pre @ last (re_findall number_pattern cs) @ post" "\<not> list_ex py_isdigit post"
        using "1.IH" "1.prems" by metis
      with eq Cons have "s = (c # pre) @ last (re_findall number_pattern s) @ post \<and>
              \<not> list_ex py_isdigit post" by simp
      then show ?thesis by blast
    qed
  next
    case (Cons rest others)
    from findall_step_match [OF Cons] obtain sign p q where
      h: "number_parts sign p q" "s = number_text sign p q @ rest"
         "re_findall number_pattern s = number_text sign p q # re_findall number_pattern rest"
      by blast
    have len: "length rest < length s"
      using h(1,2) number_text_nonempty [OF h(1)] by simp
    show ?thesis
    proof (cases "re_findall number_pattern rest = []")
      case True
      then have "\<not> list_ex py_isdigit rest" by (simp add: findall_empty_iff)
      with True h have "s = [] @ last (re_findall number_pattern s) @ rest \<and>
              \<not> list_ex py_isdigit rest" by simp
      then show ?thesis by blast
    next
      case False
      with len "1.IH" obtain pre post where
        "rest = pre @ last (re_findall number_pattern rest) @ post" "\<not> list_ex py_isdigit post"
        by metis
      with False h have "s = (number_text sign p q @ pre) @ last (re_findall number_pattern s) @ post \<and>
              \<not> list_ex py_isdigit post" by simp
      then show ?thesis by blast
    qed
  qed
qed


lemma py_float_str_exn: "py_float (PyStr s) = Inl exc \<Longrightarrow> is_ValueError exc"
  by (simp add: float_of_string_exn)

lemma extract_whole:
  "py_float (PyStr (strip text)) = Inr f \<Longrightarrow> extract_numeric_answer text = Inr (Some f)"
  by (simp add: extract_numeric_answer_def)

lemma extract_none:
  assumes "py_float (PyStr (strip text)) = Inl exc" "\<not> list_ex py_isdigit (strip text)"
  shows "re_findall number_pattern (strip text) = []"
    and "extract_numeric_answer text = Inr None"
proof -
  show e: "re_findall number_pattern (strip text) = []"
    using assms(2) by (simp add: findall_empty_iff)
  have "is_ValueError exc" using assms(1) by (rule py_float_str_exn)
  with assms(1) e show "extract_numeric_answer text = Inr None"
    by (simp add: extract_numeric_answer_def)
qed

lemma extract_last:
  assumes "py_float (PyStr (strip text)) = Inl exc" "list_ex py_isdigit (strip text)"
  shows "\<exists>pre m post f.
           strip text = pre @ m @ post \<and>
           m = last (re_findall number_pattern (strip text)) \<and>
           signed_decimal m \<and> \<not> list_ex py_isdigit post \<and>
           py_float (PyStr m) = Inr f \<and> extract_numeric_answer text = Inr (Some f)"
proof -
  let ?ns = "re_findall number_pattern (strip text)"
  have ne: "?ns \<noteq> []" using assms(2) by (simp add: findall_empty_iff)
  from findall_last [OF ne] obtain pre post where
    split: "strip text = pre @ last ?ns @ post" "\<not> list_ex py_isdigit post" by blast
  have "last ?ns \<in> set ?ns" using ne by simp
  from findall_numbers [OF this] obtain sign p q where
    parts: "number_parts sign p q" "last ?ns = number_text sign p q" by blast
  then have sd: "signed_decimal (last ?ns)"
    by (simp add: number_parts_def number_text_signed_decimal)
  have fl: "py_float (PyStr (last ?ns)) = Inr (decimal_to_double (sign = ''-'') p q 0)"
    using parts by (simp add: number_parts_def float_of_number_text)
  have "is_ValueError exc" using assms(1) by (rule py_float_str_exn)
  with assms(1) ne fl have "extract_numeric_answer text
      = Inr (Some (decimal_to_double (sign = ''-'') p q 0))"
    by (simp add: extract_numeric_answer_def Let_def)
  with split sd fl show ?thesis by blast
qed

lemma extract_numeric_answer_total: "\<exists>r. extract_numeric_answer text = Inr r"
proof (cases "py_float (PyStr (strip text))")
  case (Inr f)
  then show ?thesis by (simp add: extract_whole)
next
  case (Inl exc)
  show ?thesis
  proof (cases "list_ex py_isdigit (strip text)")
    case True
    from extract_last [OF Inl True] show ?thesis by blast
  next
    case False
    from extract_none(2) [OF Inl False] show ?thesis by blast
  qed
qed

lemma ask_verbatim:
  assumes "strip query \<noteq> []"
    and "executor_invoke a (strip query) = Inr out"
    and "extract_numeric_answer (strip out) = Inr None"
    and "strip out \<noteq> []"
  shows "ask a query = ([RuntimeInvoked (strip query)], Inr (strip out))"
proof -
  have "llm_attempt a (strip query) = Inr (strip out)"
    using assms(2,3,4) by (simp add: llm_attempt_def run_langchain_def)
  with assms(1) show ?thesis by (simp add: ask_answered)
qed

section \<open>The parser and the standard grammar\<close>









lemma supported_to_node [simp]: "supported (to_node e)"
proof (induction e)
  case (Literal lit)
  show ?case by (cases lit) simp_all
next
  case (Unary s e)
  then show ?case by (cases s) simp_all
next
  case (Binary op l r)
  then show ?case by (cases op) simp_all
qed








section \<open>Properties of the orchestrator\<close>

text \<open>
  Claim C6. A query whose whitespace-trimmed form is empty gets the fixed out-of-scope
  message, and \<open>ask\<close> makes no call at all: neither the model runtime nor the fallback
  evaluator is invoked.
\<close>

theorem ask_blank_query:
  assumes "strip query = []"
  shows "snd (ask a query) = Inr OUT_OF_SCOPE_MESSAGE \<and> fst (ask a query) = []"
  using assms by (simp add: ask_def)

theorem ask_blank_query_witness:
  "strip [CHR '' '', CHR 0x09, CHR 0x0A] = [] \<and>
   snd (ask (agent_example (Inr ''7'') True) [CHR '' '', CHR 0x09, CHR 0x0A])
     = Inr OUT_OF_SCOPE_MESSAGE \<and>
   fst (ask (agent_example (Inr ''7'') True) [CHR '' '', CHR 0x09, CHR 0x0A]) = []"
proof -
  have blank: "strip [CHR '' '', CHR 0x09, CHR 0x0A] = []"
    by (simp add: strip_def py_isspace_def)
  from ask_blank_query [OF blank, of "agent_example (Inr ''7'') True"] blank
  show ?thesis by simp
qed

text \<open>
  Claim C9. \<open>ask\<close> is total: when the model runtime returns a text or raises an
  exception (an instance of \<^verbatim>\<open>Exception\<close>), \<open>ask\<close> returns a string and lets no
  exception through, whatever the query, the flag, the gate, the parser and the
  evaluator do.
\<close>

theorem ask_total:
  assumes "\<forall>q exc. executor_invoke a q = Inl exc \<longrightarrow> is_Exception exc"
  shows "\<exists>response. snd (ask a query) = Inr response"
proof (cases "strip query = []")
  case True
  then show ?thesis by (simp add: ask_blank)
next
  case False
  show ?thesis
  proof (cases "llm_attempt a (strip query)")
    case (Inr response)
    with False show ?thesis by (simp add: ask_answered)
  next
    case (Inl exc)
    have "is_Exception exc"
      using Inl assms by (blast intro: llm_attempt_exn)
    with Inl False fallback_returns [of a "strip query"] show ?thesis
      by (auto simp: ask_failed)
  qed
qed

theorem ask_total_witness:
  "\<exists>response. snd (ask (agent_example (Inl (RuntimeError ''boom'')) True) ''1/0'')
       = Inr response"
proof -
  have h: "\<forall>q exc. executor_invoke (agent_example (Inl (RuntimeError ''boom'')) True) q = Inl exc
       \<longrightarrow> is_Exception exc"
    by (simp add: agent_example_def)
  from ask_total [OF h, of "''1/0''"] show ?thesis .
qed

text \<open>
  Claim C5. For a non-empty query on which \<open>ask\<close> invokes the model runtime, if
  that call raises an error and the deterministic fallback is disabled, then \<open>ask\<close>
  returns the fixed tool-failure message and never invokes the fallback evaluator,
  whatever the query contains.
\<close>

theorem fallback_disabled_never_runs:
  assumes "query \<noteq> []"
    and "RuntimeInvoked q \<in> set (fst (ask a query))"
    and "executor_invoke a q = Inl exc"
    and "is_Exception exc"
    and "\<not> deterministic_fallback a"
  shows "snd (ask a query) = Inr TOOL_FAILURE_MESSAGE \<and>
         (\<forall>x. EvaluatorInvoked x \<notin> set (fst (ask a query)))"
proof -
  have nonblank: "strip query \<noteq> []" and q: "q = strip query"
    using ask_runtime_invoked [OF assms(2)] by simp_all
  have "llm_attempt a (strip query) = Inl exc"
    using assms(3) q by (simp add: llm_attempt_raises)
  with nonblank assms(4,5) show ?thesis
    by (simp add: ask_failed fallback_disabled)
qed

theorem fallback_disabled_never_runs_witness:
  "''2 + 2'' \<noteq> [] \<and>
   RuntimeInvoked ''2 + 2''
     \<in> set (fst (ask (agent_example (Inl (RuntimeError ''boom'')) False) ''2 + 2'')) \<and>
   executor_invoke (agent_example (Inl (RuntimeError ''boom'')) False) ''2 + 2''
     = Inl (RuntimeError ''boom'') \<and>
   is_Exception (RuntimeError ''boom'') \<and>
   \<not> deterministic_fallback (agent_example (Inl (RuntimeError ''boom'')) False) \<and>
   snd (ask (agent_example (Inl (RuntimeError ''boom'')) False) ''2 + 2'')
     = Inr TOOL_FAILURE_MESSAGE \<and>
   (\<forall>x. EvaluatorInvoked x
      \<notin> set (fst (ask (agent_example (Inl (RuntimeError ''boom'')) False) ''2 + 2'')))"
proof -
  have h1: "''2 + 2'' \<noteq> []" by simp
  have h2: "RuntimeInvoked ''2 + 2''
     \<in> set (fst (ask (agent_example (Inl (RuntimeError ''boom'')) False) ''2 + 2''))"
    by code_simp
  have h3: "executor_invoke (agent_example (Inl (RuntimeError ''boom'')) False) ''2 + 2''
     = Inl (RuntimeError ''boom'')"
    by (simp add: agent_example_def)
  have h4: "is_Exception (RuntimeError ''boom'')" by simp
  have h5: "\<not> deterministic_fallback (agent_example (Inl (RuntimeError ''boom'')) False)"
    by (simp add: agent_example_def)
  from fallback_disabled_never_runs [OF h1 h2 h3 h4 h5] h1 h2 h3 h4 h5
  show ?thesis by blast
qed

text \<open>
  Claim C2. A query passes the gate exactly when each of its characters is a digit,
  whitespace, one of \<^verbatim>\<open>+ - * /\<close>, a parenthesis or a decimal point, and it has at
  least one digit and at least one operator character. A query with any other
  character is rejected by the gate, and \<open>ask\<close> never hands it to the fallback
  evaluator, whatever the agent.
\<close>

theorem gate_exact:
  "(is_strict_pure_expression query \<longleftrightarrow>
      (\<forall>c \<in> set query. gate_alphabet c) \<and>
      (\<exists>c \<in> set query. py_isdigit c) \<and>
      (\<exists>c \<in> set query. operator_char c)) \<and>
   ((\<exists>c \<in> set query. \<not> gate_alphabet c) \<longrightarrow>
      \<not> is_strict_pure_expression query \<and>
      (\<forall>a x. EvaluatorInvoked x \<notin> set (fst (ask a query))))"
proof (intro conjI impI)
  show "is_strict_pure_expression query \<longleftrightarrow>
      (\<forall>c \<in> set query. gate_alphabet c) \<and>
      (\<exists>c \<in> set query. py_isdigit c) \<and>
      (\<exists>c \<in> set query. operator_char c)"
    by (simp add: gate_iff list_all_iff list_ex_iff)
next
  assume "\<exists>c \<in> set query. \<not> gate_alphabet c"
  then show "\<not> is_strict_pure_expression query"
    by (auto simp: gate_iff list_all_iff)
next
  assume "\<exists>c \<in> set query. \<not> gate_alphabet c"
  then obtain c where "c \<in> set query" "\<not> gate_alphabet c" by blast
  then have "\<not> is_strict_pure_expression (strip query)"
    by (rule gate_rejects_after_strip)
  then show "\<forall>a x. EvaluatorInvoked x \<notin> set (fst (ask a query))"
    using ask_evaluator_invoked by blast
qed


theorem gate_exact_witness:
  "is_strict_pure_expression ''2 + 2 * (10 - 3)'' \<and>
   \<not> is_strict_pure_expression ''What is 2 plus 2?'' \<and>
   (\<forall>a x. EvaluatorInvoked x \<notin> set (fst (ask a ''What is 2 plus 2?'')))"
proof -
  have ok: "(\<forall>c \<in> set ''2 + 2 * (10 - 3)''. gate_alphabet c) \<and>
      (\<exists>c \<in> set ''2 + 2 * (10 - 3)''. py_isdigit c) \<and>
      (\<exists>c \<in> set ''2 + 2 * (10 - 3)''. operator_char c)"
    by (simp add: gate_alphabet_def py_isdigit_def py_isspace_def operator_char_def)
  have bad: "\<exists>c \<in> set ''What is 2 plus 2?''. \<not> gate_alphabet c"
    by (simp add: gate_alphabet_def py_isdigit_def py_isspace_def)
  from gate_exact [of "''2 + 2 * (10 - 3)''"] ok
  have "is_strict_pure_expression ''2 + 2 * (10 - 3)''" by blast
  moreover from gate_exact [of "''What is 2 plus 2?''"] bad
  have "\<not> is_strict_pure_expression ''What is 2 plus 2?'' \<and>
   (\<forall>a x. EvaluatorInvoked x \<notin> set (fst (ask a ''What is 2 plus 2?'')))" by blast
  ultimately show ?thesis by blast
qed

text \<open>
  Claim C3. On the fallback path (the runtime raised, the flag is on, the query passed
  the gate and parsed), an expression whose evaluation reaches a division with a zero
  right operand, anywhere in the tree, ends in the fixed tool-failure message: the
  divide primitive raises on a zero divisor, the recursive evaluator propagates that
  error, and \<open>ask\<close> maps it to \<open>TOOL_FAILURE_MESSAGE\<close>.
\<close>

theorem division_by_zero_fails:
  assumes "is_Exception exc"
    and "executor_invoke a (strip query) = Inl exc"
    and "deterministic_fallback a"
    and "is_strict_pure_expression (strip query)"
    and "ast_parse (strip query) = Inr tree"
    and "divides_by_zero tree"
  shows "(\<forall>l r. float_is_zero r \<longrightarrow>
            divide (PyFloat l) (PyFloat r)
              = Inl (ValueError ''Division by zero is not allowed.'')) \<and>
         evaluate_pure_expression (strip query)
           = Inl (ValueError ''Division by zero is not allowed.'') \<and>
         snd (ask a query) = Inr TOOL_FAILURE_MESSAGE"
proof (intro conjI allI impI)
  fix l r
  assume "float_is_zero r"
  then show "divide (PyFloat l) (PyFloat r)
              = Inl (ValueError ''Division by zero is not allowed.'')"
    by (simp add: divide_def)
next
  show ev: "evaluate_pure_expression (strip query)
           = Inl (ValueError ''Division by zero is not allowed.'')"
    using assms(5,6) by (simp add: evaluate_pure_expression_def divides_by_zero_raises)
  have nonblank: "strip query \<noteq> []"
    using assms(4) by (rule gate_nonempty)
  have "llm_attempt a (strip query) = Inl exc"
    using assms(2) by (rule llm_attempt_raises)
  with nonblank assms(1) have "snd (ask a query) = snd (fallback a (strip query))"
    by (simp add: ask_failed)
  also have "\<dots> = Inr TOOL_FAILURE_MESSAGE"
    using assms(3,4) ev by (simp add: fallback_def)
  finally show "snd (ask a query) = Inr TOOL_FAILURE_MESSAGE" .
qed

theorem division_by_zero_fails_witness:
  "is_Exception (RuntimeError ''boom'') \<and>
   executor_invoke (agent_example (Inl (RuntimeError ''boom'')) True) (strip ''2 * (1/0)'')
     = Inl (RuntimeError ''boom'') \<and>
   deterministic_fallback (agent_example (Inl (RuntimeError ''boom'')) True) \<and>
   is_strict_pure_expression (strip ''2 * (1/0)'') \<and>
   ast_parse (strip ''2 * (1/0)'') =
     Inr (Expression (BinOp (Constant (IntConst 2)) Mult
            (BinOp (Constant (IntConst 1)) Div (Constant (IntConst 0))))) \<and>
   divides_by_zero (Expression (BinOp (Constant (IntConst 2)) Mult
            (BinOp (Constant (IntConst 1)) Div (Constant (IntConst 0))))) \<and>
   evaluate_pure_expression (strip ''2 * (1/0)'')
     = Inl (ValueError ''Division by zero is not allowed.'') \<and>
   snd (ask (agent_example (Inl (RuntimeError ''boom'')) True) ''2 * (1/0)'')
     = Inr TOOL_FAILURE_MESSAGE"
proof -
  have h1: "is_Exception (RuntimeError ''boom'')" by simp
  have h2: "executor_invoke (agent_example (Inl (RuntimeError ''boom'')) True)
              (strip ''2 * (1/0)'') = Inl (RuntimeError ''boom'')"
    by (simp add: agent_example_def)
  have h3: "deterministic_fallback (agent_example (Inl (RuntimeError ''boom'')) True)"
    by (simp add: agent_example_def)
  have h4: "is_strict_pure_expression (strip ''2 * (1/0)'')" by code_simp
  have h5: "ast_parse (strip ''2 * (1/0)'') =
     Inr (Expression (BinOp (Constant (IntConst 2)) Mult
            (BinOp (Constant (IntConst 1)) Div (Constant (IntConst 0)))))"
    by code_simp
  have h6: "divides_by_zero (Expression (BinOp (Constant (IntConst 2)) Mult
            (BinOp (Constant (IntConst 1)) Div (Constant (IntConst 0)))))"
    by code_simp
  from division_by_zero_fails [OF h1 h2 h3 h4 h5 h6] h1 h2 h3 h4 h5 h6
  show ?thesis by blast
qed


text \<open>
  Claim C8. Whatever the query and whatever the runtime does, an error never reaches
  the user as raw text: the response is a fixed string, a formatted number, or the
  text that the runtime itself returned; when the runtime raises, the response is a
  fixed string unless the fallback computed a number; and it is the same whichever
  exception was raised.
\<close>

theorem ask_never_leaks_error_text:
  assumes "\<forall>q exc. executor_invoke a q = Inl exc \<longrightarrow> is_Exception exc"
  shows "(snd (ask a query)
            \<in> {Inr OUT_OF_SCOPE_MESSAGE, Inr TOOL_FAILURE_MESSAGE, Inr LLM_SETUP_MESSAGE} \<or>
          (\<exists>v. snd (ask a query) = Inr (format_numeric v)) \<or>
          (\<exists>output. executor_invoke a (strip query) = Inr output \<and>
                    snd (ask a query) = Inr (strip output))) \<and>
         (\<forall>exc. executor_invoke a (strip query) = Inl exc \<longrightarrow>
            snd (ask a query)
              \<in> {Inr OUT_OF_SCOPE_MESSAGE, Inr TOOL_FAILURE_MESSAGE, Inr LLM_SETUP_MESSAGE} \<or>
            (\<exists>v. evaluate_pure_expression (strip query) = Inr v \<and>
                 snd (ask a query) = Inr (format_numeric v))) \<and>
         (\<forall>a' exc exc'.
            executor_invoke a (strip query) = Inl exc \<and>
            executor_invoke a' (strip query) = Inl exc' \<and> is_Exception exc' \<and>
            deterministic_fallback a' = deterministic_fallback a \<longrightarrow>
            snd (ask a' query) = snd (ask a query))"
proof (intro conjI allI impI)
  show "snd (ask a query)
            \<in> {Inr OUT_OF_SCOPE_MESSAGE, Inr TOOL_FAILURE_MESSAGE, Inr LLM_SETUP_MESSAGE} \<or>
          (\<exists>v. snd (ask a query) = Inr (format_numeric v)) \<or>
          (\<exists>output. executor_invoke a (strip query) = Inr output \<and>
                    snd (ask a query) = Inr (strip output))"
  proof (cases "strip query = []")
    case True
    then show ?thesis by (simp add: ask_blank)
  next
    case False
    show ?thesis
    proof (cases "executor_invoke a (strip query)")
      case (Inl exc)
      with assms have "is_Exception exc" by blast
      with Inl have "snd (ask a query) = snd (fallback a (strip query))"
        using False by (simp add: ask_runtime_raised)
      with fallback_cases [of a "strip query"] show ?thesis by auto
    next
      case (Inr out)
      from llm_attempt_cases [OF Inr] show ?thesis
      proof (elim disjE exE conjE)
        fix v assume "llm_attempt a (strip query) = Inr (format_numeric v)"
        with False show ?thesis by (auto simp: ask_answered)
      next
        assume "llm_attempt a (strip query) = Inr (strip out)"
        with False Inr show ?thesis by (auto simp: ask_answered)
      next
        assume "llm_attempt a (strip query) = Inr TOOL_FAILURE_MESSAGE"
        with False show ?thesis by (auto simp: ask_answered)
      next
        fix exc assume "llm_attempt a (strip query) = Inl exc" "is_Exception exc"
        with False have "snd (ask a query) = snd (fallback a (strip query))"
          by (simp add: ask_failed)
        with fallback_cases [of a "strip query"] show ?thesis by auto
      qed
    qed
  qed
next
  fix exc
  assume raised: "executor_invoke a (strip query) = Inl exc"
  with assms have "is_Exception exc" by blast
  with raised have "snd (ask a query) =
           (if strip query = [] then Inr OUT_OF_SCOPE_MESSAGE
            else snd (fallback a (strip query)))"
    by (rule ask_runtime_raised)
  with fallback_cases [of a "strip query"]
  show "snd (ask a query)
              \<in> {Inr OUT_OF_SCOPE_MESSAGE, Inr TOOL_FAILURE_MESSAGE, Inr LLM_SETUP_MESSAGE} \<or>
            (\<exists>v. evaluate_pure_expression (strip query) = Inr v \<and>
                 snd (ask a query) = Inr (format_numeric v))"
    by (cases "strip query = []") auto
next
  fix a' :: agent and exc exc'
  assume h: "executor_invoke a (strip query) = Inl exc \<and>
            executor_invoke a' (strip query) = Inl exc' \<and> is_Exception exc' \<and>
            deterministic_fallback a' = deterministic_fallback a"
  with assms have "is_Exception exc" by blast
  with h show "snd (ask a' query) = snd (ask a query)"
    by (simp add: ask_runtime_raised fallback_flag_only [of a' a])
qed

theorem ask_never_leaks_error_text_witness:
  "snd (ask (agent_example (Inl (RuntimeError ''secret'')) True) ''1 +'')
     = Inr TOOL_FAILURE_MESSAGE"
proof -
  have h: "\<forall>q exc. executor_invoke (agent_example (Inl (RuntimeError ''secret'')) True) q
             = Inl exc \<longrightarrow> is_Exception exc"
    by (simp add: agent_example_def)
  have raised: "executor_invoke (agent_example (Inl (RuntimeError ''secret'')) True)
                  (strip ''1 +'') = Inl (RuntimeError ''secret'')"
    by (simp add: agent_example_def)
  have no_value: "evaluate_pure_expression (strip ''1 +'') = Inl SyntaxError"
    by code_simp
  have nonblank: "snd (ask (agent_example (Inl (RuntimeError ''secret'')) True) ''1 +'')
           \<noteq> Inr OUT_OF_SCOPE_MESSAGE"
      "snd (ask (agent_example (Inl (RuntimeError ''secret'')) True) ''1 +'')
           \<noteq> Inr LLM_SETUP_MESSAGE"
    by code_simp+
  from ask_never_leaks_error_text [OF h, of "''1 +''"] raised no_value nonblank
  show ?thesis by auto
qed

text \<open>
  Claim C10. There are model outputs without any digit (\<^verbatim>\<open>inf\<close>, \<^verbatim>\<open>nan\<close>,
  \<^verbatim>\<open>Infinity\<close>) for which the whole-text parse of the normalizer succeeds, so that
  \<open>ask\<close> returns the formatted float (\<^verbatim>\<open>inf\<close> or \<^verbatim>\<open>nan\<close>) and not the text as a
  non-numeric answer.
\<close>

theorem digitless_text_read_as_number:
  assumes "strip query \<noteq> []"
    and "executor_invoke a (strip query) = Inr output"
    and "output \<in> {''inf'', ''nan'', ''Infinity''}"
  shows "\<not> list_ex py_isdigit output \<and>
         (\<exists>v. extract_numeric_answer output = Inr (Some v) \<and>
              snd (ask a query) = Inr (format_numeric v)) \<and>
         snd (ask a query)
           = Inr (if output = ''nan'' then ''nan'' else ''inf'')"
proof -
  have nd: "\<not> list_ex py_isdigit ''inf''" "\<not> list_ex py_isdigit ''nan''"
      "\<not> list_ex py_isdigit ''Infinity''"
    by (simp_all add: py_isdigit_def)
  have ex: "extract_numeric_answer ''inf'' = Inr (Some (Infinity False))"
      "extract_numeric_answer ''nan'' = Inr (Some NaN)"
      "extract_numeric_answer ''Infinity'' = Inr (Some (Infinity False))"
    by code_simp+
  have st: "strip ''inf'' = ''inf''" "strip ''nan'' = ''nan''" "strip ''Infinity'' = ''Infinity''"
    by code_simp+
  have fm: "format_numeric (Infinity False) = ''inf''" "format_numeric NaN = ''nan''"
    by (simp_all add: format_numeric_def)
  from assms(3) consider "output = ''inf''" | "output = ''nan''" | "output = ''Infinity''"
    by blast
  then show ?thesis
  proof cases
    case 1
    with ask_numeric_answer [OF assms(1,2), of "Infinity False"] nd ex st fm
    show ?thesis by simp
  next
    case 2
    with ask_numeric_answer [OF assms(1,2), of NaN] nd ex st fm
    show ?thesis by simp
  next
    case 3
    with ask_numeric_answer [OF assms(1,2), of "Infinity False"] nd ex st fm
    show ?thesis by simp
  qed
qed

theorem digitless_text_read_as_number_witness:
  "strip ''How big?'' \<noteq> [] \<and>
   executor_invoke (agent_example (Inr ''Infinity'') False) (strip ''How big?'')
     = Inr ''Infinity'' \<and>
   ''Infinity'' \<in> {''inf'', ''nan'', ''Infinity''} \<and>
   snd (ask (agent_example (Inr ''Infinity'') False) ''How big?'') = Inr ''inf''"
proof -
  have h1: "strip ''How big?'' \<noteq> []" by code_simp
  have h2: "executor_invoke (agent_example (Inr ''Infinity'') False) (strip ''How big?'')
     = Inr ''Infinity''"
    by (simp add: agent_example_def)
  have h3: "''Infinity'' \<in> {''inf'', ''nan'', ''Infinity''}" by simp
  from digitless_text_read_as_number [OF h1 h2 h3] h1 h2 h3
  show ?thesis by simp
qed


section \<open>Properties of the restricted evaluator\<close>






section \<open>Properties of the response normalizer\<close>

text \<open>
  Claim C4. For every model-output text, the normalizer first parses the whole trimmed
  text as one number; when that fails and the text has a digit, it takes the last match
  of the signed-decimal pattern, which is a signed decimal followed by no further digit
  and always converts to a float; when the text has no digit it returns \<open>None\<close>, and
  \<open>ask\<close> then returns the (non-empty) text as it is. An extracted number is rendered
  by \<open>format_numeric\<close>: \<^verbatim>\<open>50.0\<close> gives \<^verbatim>\<open>50.0\<close>, and
  \<^verbatim>\<open>Compute 25 times 34 and then plus 17 = 867\<close> gives \<^verbatim>\<open>867.0\<close>.
\<close>

theorem normalizer_last_number_wins:
  "(\<forall>f. py_float (PyStr (strip text)) = Inr f \<longrightarrow>
        extract_numeric_answer text = Inr (Some f)) \<and>
   ((\<exists>exc. py_float (PyStr (strip text)) = Inl exc) \<and> list_ex py_isdigit (strip text) \<longrightarrow>
      (\<exists>pre m post f.
          strip text = pre @ m @ post \<and>
          m = last (re_findall number_pattern (strip text)) \<and>
          signed_decimal m \<and> \<not> list_ex py_isdigit post \<and>
          py_float (PyStr m) = Inr f \<and> extract_numeric_answer text = Inr (Some f))) \<and>
   ((\<exists>exc. py_float (PyStr (strip text)) = Inl exc) \<and> \<not> list_ex py_isdigit (strip text) \<longrightarrow>
      re_findall number_pattern (strip text) = [] \<and> extract_numeric_answer text = Inr None) \<and>
   (\<forall>a query. strip query \<noteq> [] \<and> executor_invoke a (strip query) = Inr text \<longrightarrow>
      (case extract_numeric_answer (strip text) of
         Inr (Some f) \<Rightarrow> snd (ask a query) = Inr (format_numeric f)
       | Inr None \<Rightarrow> strip text \<noteq> [] \<longrightarrow> snd (ask a query) = Inr (strip text)
       | Inl exc \<Rightarrow> False)) \<and>
   map_sum id (map_option format_numeric) (extract_numeric_answer ''50.0'')
     = Inr (Some ''50.0'') \<and>
   map_sum id (map_option format_numeric)
      (extract_numeric_answer ''Compute 25 times 34 and then plus 17 = 867'')
     = Inr (Some ''867.0'')"
proof (intro conjI allI impI)
  fix f assume "py_float (PyStr (strip text)) = Inr f"
  then show "extract_numeric_answer text = Inr (Some f)" by (rule extract_whole)
next
  assume "(\<exists>exc. py_float (PyStr (strip text)) = Inl exc) \<and> list_ex py_isdigit (strip text)"
  then show "\<exists>pre m post f.
          strip text = pre @ m @ post \<and>
          m = last (re_findall number_pattern (strip text)) \<and>
          signed_decimal m \<and> \<not> list_ex py_isdigit post \<and>
          py_float (PyStr m) = Inr f \<and> extract_numeric_answer text = Inr (Some f)"
    using extract_last by blast
next
  assume "(\<exists>exc. py_float (PyStr (strip text)) = Inl exc) \<and> \<not> list_ex py_isdigit (strip text)"
  then show "re_findall number_pattern (strip text) = []"
    using extract_none(1) by blast
next
  assume "(\<exists>exc. py_float (PyStr (strip text)) = Inl exc) \<and> \<not> list_ex py_isdigit (strip text)"
  then show "extract_numeric_answer text = Inr None"
    using extract_none(2) by blast
next
  fix a :: agent and query
  assume h: "strip query \<noteq> [] \<and> executor_invoke a (strip query) = Inr text"
  from extract_numeric_answer_total [of "strip text"] obtain r
    where r: "extract_numeric_answer (strip text) = Inr r" by blast
  show "case extract_numeric_answer (strip text) of
         Inr (Some f) \<Rightarrow> snd (ask a query) = Inr (format_numeric f)
       | Inr None \<Rightarrow> strip text \<noteq> [] \<longrightarrow> snd (ask a query) = Inr (strip text)
       | Inl exc \<Rightarrow> False"
  proof (cases r)
    case None
    with r h show ?thesis by (auto simp: ask_verbatim)
  next
    case (Some f)
    with r h show ?thesis by (auto simp: ask_numeric_answer)
  qed
next
  show "map_sum id (map_option format_numeric) (extract_numeric_answer ''50.0'')
     = Inr (Some ''50.0'')"
    by code_simp
next
  show "map_sum id (map_option format_numeric)
      (extract_numeric_answer ''Compute 25 times 34 and then plus 17 = 867'')
     = Inr (Some ''867.0'')"
    by code_simp
qed

theorem normalizer_last_number_wins_witness:
  "py_float (PyStr (strip ''17 = 867''))
     = Inl (ValueError ''could not convert string to float'') \<and>
   list_ex py_isdigit (strip ''17 = 867'') \<and>
   (\<exists>f. extract_numeric_answer ''17 = 867'' = Inr (Some f)) \<and>
   strip ''q'' \<noteq> [] \<and>
   executor_invoke (agent_example (Inr ''17 = 867'') False) (strip ''q'') = Inr ''17 = 867'' \<and>
   snd (ask (agent_example (Inr ''17 = 867'') False) ''q'') = Inr ''867.0''"
proof -
  have h1: "py_float (PyStr (strip ''17 = 867''))
     = Inl (ValueError ''could not convert string to float'')"
    by code_simp
  have h2: "list_ex py_isdigit (strip ''17 = 867'')" by code_simp
  have h3: "strip ''q'' \<noteq> []" by code_simp
  have h4: "executor_invoke (agent_example (Inr ''17 = 867'') False) (strip ''q'')
     = Inr ''17 = 867''"
    by (simp add: agent_example_def)
  have h5: "extract_numeric_answer (strip ''17 = 867'')
              = Inr (Some (Finite False 7626212650254336 (- 43)))"
    by code_simp
  have h6: "format_numeric (Finite False 7626212650254336 (- 43)) = ''867.0''"
    by code_simp
  from normalizer_last_number_wins [of "''17 = 867''"] h1 h2
  have a: "\<exists>f. extract_numeric_answer ''17 = 867'' = Inr (Some f)" by blast
  from normalizer_last_number_wins [of "''17 = 867''"] h3 h4
  have "case extract_numeric_answer (strip ''17 = 867'') of
         Inr (Some f) \<Rightarrow>
           snd (ask (agent_example (Inr ''17 = 867'') False) ''q'') = Inr (format_numeric f)
       | Inr None \<Rightarrow> strip ''17 = 867'' \<noteq> [] \<longrightarrow>
           snd (ask (agent_example (Inr ''17 = 867'') False) ''q'') = Inr (strip ''17 = 867'')
       | Inl exc \<Rightarrow> False"
    by blast
  with h5 h6 have b: "snd (ask (agent_example (Inr ''17 = 867'') False) ''q'') = Inr ''867.0''"
    by simp
  from h1 h2 a h3 h4 b show ?thesis by blast
qed


section \<open>Properties of the arithmetic primitives\<close>

lemma bit_length_double: "0 < n \<Longrightarrow> bit_length (2 * n) = 1 + bit_length n"
  by (subst bit_length.simps) simp

lemma bit_length_pow2: "bit_length (2 ^ n) = int n + 1"
proof (induction n)
  case 0
  show ?case by (simp add: bit_length.simps [of 1] bit_length.simps [of 0])
next
  case (Suc n)
  have "bit_length (2 * 2 ^ n) = 1 + bit_length (2 ^ n)"
    by (rule bit_length_double) simp
  with Suc show ?case by simp
qed

lemma int_to_float_overflow: "int_to_float (2 ^ 1024) = Inl (OverflowError ''int too large to convert to float'')"
proof -
  have b: "bit_length (2 ^ 1024) = 1025" using bit_length_pow2 [of 1024] by simp
  have o: "bit_length 1 = 1" using bit_length_pow2 [of 0] by simp
  have "round_to_double False (2 ^ 1024) 1 = Infinity False"
    unfolding round_to_double_def b o
    by (simp add: Let_def round_half_even_def)
  then show ?thesis by (simp add: int_to_float_def)
qed

text \<open>
  Claim C7 at the input \<^verbatim>\<open>add(2**1024, 1)\<close>: the left operand cannot be coerced,
  \<^verbatim>\<open>float\<close> raises \<^verbatim>\<open>OverflowError\<close>, and \<^verbatim>\<open>_to_float\<close>, which catches
  \<^verbatim>\<open>TypeError\<close> and \<^verbatim>\<open>ValueError\<close> only, lets it through instead of raising the
  controlled invalid-input error that it raises for a text that is no number.
\<close>

theorem to_float_overflow_uncontrolled:
  "py_float (PyInt (2 ^ 1024)) = Inl (OverflowError ''int too large to convert to float'') \<and>
   to_float (PyInt (2 ^ 1024)) = Inl (OverflowError ''int too large to convert to float'') \<and>
   add (PyInt (2 ^ 1024)) (PyInt 1)
     = Inl (OverflowError ''int too large to convert to float'') \<and>
   to_float (PyStr ''ten'') = Inl (ValueError ''Non-numeric value received.'')"
proof -
  have a: "py_float (PyInt (2 ^ 1024))
             = Inl (OverflowError ''int too large to convert to float'')"
    by (simp only: py_float.simps int_to_float_overflow)
  have b: "to_float (PyInt (2 ^ 1024))
             = Inl (OverflowError ''int too large to convert to float'')"
    unfolding to_float_def a by simp
  have c: "add (PyInt (2 ^ 1024)) (PyInt 1)
             = Inl (OverflowError ''int too large to convert to float'')"
    unfolding add_def b by simp
  have d: "to_float (PyStr ''ten'') = Inl (ValueError ''Non-numeric value received.'')"
    by code_simp
  from a b c d show ?thesis by (intro conjI)
qed

end
